theory Spec2Isabelle
  imports Complex_Main
begin

section \<open>JavaScript values\<close>

text \<open>
  A JavaScript number is a double. A finite double is modelled by the rational it
  denotes, next to the three special values. The sign of zero is not modelled: the two
  zeros compare equal, are both written \<^verbatim>\<open>0\<close> by \<^verbatim>\<open>JSON.stringify\<close>, and no
  \<^verbatim>\<open>Math.round\<close> or \<^verbatim>\<open>Math.max\<close> result used below depends on the sign.
\<close>

datatype jsnum = Fin rat | PosInf | NegInf | NaN

text \<open>
  A value produced by \<^verbatim>\<open>JSON.parse\<close>. An object is the list of its own properties in
  the order \<^verbatim>\<open>Object.entries\<close> enumerates them (keys are distinct there). The value
  \<^verbatim>\<open>undefined\<close> is \<open>None\<close> of \<open>json option\<close>.
\<close>

datatype json =
    JNull
  | JBool bool
  | JNum jsnum
  | JStr string
  | JArr "json list"
  | JObj "(string \<times> json) list"

datatype error =
    TypeError
  | AccountsFileNotFound
  | AccountsFileInvalid
  | NoAccountsConfigured
  | AccountNotFound json
  | IndexOutOfRange jsnum nat
  | AccountAtIndexNotFound jsnum
  | InvalidHours json
  | Upstream string

subsection \<open>Operators of the language that the source uses\<close>

text \<open>\<^verbatim>\<open>typeof v === "object"\<close>: true of null, arrays and objects.\<close>

fun typeof_object :: "json option \<Rightarrow> bool" where
  "typeof_object (Some JNull) = True"
| "typeof_object (Some (JArr xs)) = True"
| "typeof_object (Some (JObj kvs)) = True"
| "typeof_object v = False"

text \<open>
  Property read \<^verbatim>\<open>v.k\<close>. Reading a property of null throws a TypeError. On an object
  it is the own property or undefined. On a primitive or an array it is undefined for
  every name the source reads (none of them is an index, \<^verbatim>\<open>length\<close> or a method name).
\<close>

fun get_prop :: "json \<Rightarrow> string \<Rightarrow> error + json option" where
  "get_prop JNull k = Inl TypeError"
| "get_prop (JObj kvs) k = Inr (map_of kvs k)"
| "get_prop v k = Inr None"

text \<open>
  \<^verbatim>\<open>k in v\<close> for a non-null value of type object, for the two names the source asks
  for (\<^verbatim>\<open>models\<close> and \<^verbatim>\<open>buckets\<close>, which no array has).
\<close>

fun has_prop :: "string \<Rightarrow> json \<Rightarrow> bool" where
  "has_prop k (JObj kvs) = (map_of kvs k \<noteq> None)"
| "has_prop k v = False"

text \<open>
  Conversion of a parsed value to a primitive, with which \<^verbatim>\<open>Number(v)\<close>, \<^verbatim>\<open>String(v)\<close>
  and a template literal begin. On an object it calls \<^verbatim>\<open>valueOf\<close> and \<^verbatim>\<open>toString\<close>
  when they are callable. The inherited \<^verbatim>\<open>valueOf\<close> returns the object itself, and an
  own property of a parsed object is never callable, so the conversion throws a
  TypeError exactly when the object has an own property \<^verbatim>\<open>toString\<close>. An array converts
  by joining the strings of its elements (null elements are skipped), so it throws when
  the conversion of one of its elements does.
\<close>

fun ToPrimitive_throws :: "json \<Rightarrow> bool" where
  "ToPrimitive_throws (JObj kvs) = (map_of kvs ''toString'' \<noteq> None)"
| "ToPrimitive_throws (JArr xs) = list_ex ToPrimitive_throws xs"
| "ToPrimitive_throws v = False"

text \<open>
  The value that the text written by \<^verbatim>\<open>JSON.stringify(v)\<close> denotes (what \<^verbatim>\<open>JSON.parse\<close>
  reads back from it): \<^verbatim>\<open>JSON.stringify\<close> writes a number that is not finite as
  \<^verbatim>\<open>null\<close>, also inside arrays and objects, and every other parsed value as itself.
\<close>

fun JSON_written :: "json \<Rightarrow> json" where
  "JSON_written (JNum (Fin q)) = JNum (Fin q)"
| "JSON_written (JNum n) = JNull"
| "JSON_written (JArr xs) = JArr (map JSON_written xs)"
| "JSON_written (JObj kvs) = JObj (map (\<lambda>(k, v). (k, JSON_written v)) kvs)"
| "JSON_written v = v"

text \<open>Decimal digits of a natural number, as a template literal prints an index.\<close>

definition digit_char :: "nat \<Rightarrow> char" where
  "digit_char d = ''0123456789'' ! d"

function nat_to_string :: "nat \<Rightarrow> string" where
  "nat_to_string n =
     (if n < 10 then [digit_char n] else nat_to_string (n div 10) @ [digit_char (n mod 10)])"
  by pat_completeness auto
termination
  by (relation "measure id") auto

declare nat_to_string.simps [simp del]

text \<open>\<^verbatim>\<open>Object.entries\<close> of an array pairs each element with its index.\<close>

fun Object_entries :: "json \<Rightarrow> (string \<times> json) list" where
  "Object_entries (JObj kvs) = kvs"
| "Object_entries (JArr xs) = zip (map nat_to_string [0..<length xs]) xs"
| "Object_entries v = []"

text \<open>
  Arithmetic. IEEE 754 multiplication is the exact product rounded to a double; the
  rounding (which overflows to an infinity) is the parameter \<open>dbl\<close>. \<^verbatim>\<open>Math.round\<close>
  rounds a half up and is exact on doubles.
\<close>

fun times100 :: "(rat \<Rightarrow> jsnum) \<Rightarrow> jsnum \<Rightarrow> jsnum" where
  "times100 dbl (Fin q) = dbl (q * 100)"
| "times100 dbl x = x"

fun Math_round :: "jsnum \<Rightarrow> jsnum" where
  "Math_round (Fin q) = Fin (of_int \<lfloor>q + 1 / 2\<rfloor>)"
| "Math_round x = x"

text \<open>\<^verbatim>\<open>a > b\<close>: false as soon as one side is NaN.\<close>

fun js_gt :: "jsnum \<Rightarrow> jsnum \<Rightarrow> bool" where
  "js_gt NaN b = False"
| "js_gt a NaN = False"
| "js_gt (Fin a) (Fin b) = (a > b)"
| "js_gt PosInf PosInf = False"
| "js_gt PosInf b = True"
| "js_gt a PosInf = False"
| "js_gt NegInf b = False"
| "js_gt a NegInf = True"

fun Math_max :: "jsnum \<Rightarrow> jsnum \<Rightarrow> jsnum" where
  "Math_max NaN b = NaN"
| "Math_max a NaN = NaN"
| "Math_max a b = (if js_gt b a then b else a)"

section \<open>Quota payload parsers (api/antigravity.ts)\<close>

record AntigravityModel =
  model :: string
  remaining_fraction :: "jsnum option"
  remaining_pct :: "jsnum option"
  reset_time :: "string option"

record GeminiCliBucket =
  bucket_model :: string
  token_type :: "string option"
  bucket_remaining_fraction :: "jsnum option"
  bucket_remaining_pct :: "jsnum option"
  remaining_amount :: "string option"
  bucket_reset_time :: "string option"

text \<open>The two \<^verbatim>\<open>typeof x === "number"\<close> and \<^verbatim>\<open>typeof x === "string"\<close> tests.\<close>

fun as_number :: "json option \<Rightarrow> jsnum option" where
  "as_number (Some (JNum n)) = Some n"
| "as_number v = None"

fun as_string :: "json option \<Rightarrow> string option" where
  "as_string (Some (JStr s)) = Some s"
| "as_string v = None"

definition createAntigravityModelEntry ::
  "(rat \<Rightarrow> jsnum) \<Rightarrow> string \<Rightarrow> json \<Rightarrow> error + AntigravityModel" where
  "createAntigravityModelEntry dbl name infoObj =
     (let entry = \<lparr>model = name, remaining_fraction = None, remaining_pct = None,
                    reset_time = None\<rparr>
      in case get_prop infoObj ''quotaInfo'' of
           Inl e \<Rightarrow> Inl e
         | Inr quotaInfo \<Rightarrow>
             if quotaInfo = None \<or> \<not> typeof_object quotaInfo then Inr entry
             else (case quotaInfo of
                     None \<Rightarrow> Inr entry
                   | Some q \<Rightarrow>
                       (case get_prop q ''remainingFraction'' of
                          Inl e \<Rightarrow> Inl e
                        | Inr rf \<Rightarrow>
                            let entry1 =
                              (case as_number rf of
                                 Some f \<Rightarrow> entry\<lparr>remaining_fraction := Some f,
                                   remaining_pct := Some (Math_round (times100 dbl f))\<rparr>
                               | None \<Rightarrow> entry)
                            in (case get_prop q ''resetTime'' of
                                  Inl e \<Rightarrow> Inl e
                                | Inr rt \<Rightarrow>
                                    (case as_string rt of
                                       Some s \<Rightarrow> Inr (entry1\<lparr>reset_time := Some s\<rparr>)
                                     | None \<Rightarrow> Inr entry1)))))"

text \<open>The \<^verbatim>\<open>for ... of Object.entries(dataObj.models)\<close> loop; a throw leaves it.\<close>

fun models_loop ::
  "(rat \<Rightarrow> jsnum) \<Rightarrow> (string \<times> json) list \<Rightarrow> AntigravityModel list
     \<Rightarrow> error + AntigravityModel list" where
  "models_loop dbl [] models = Inr models"
| "models_loop dbl ((name, info) # rest) models =
     (case createAntigravityModelEntry dbl name info of
        Inl e \<Rightarrow> Inl e
      | Inr entry \<Rightarrow> models_loop dbl rest (models @ [entry]))"

definition parseAntigravityModels ::
  "(rat \<Rightarrow> jsnum) \<Rightarrow> json \<Rightarrow> error + AntigravityModel list" where
  "parseAntigravityModels dbl data =
     (if \<not> typeof_object (Some data) \<or> data = JNull \<or> \<not> has_prop ''models'' data
      then Inr []
      else case get_prop data ''models'' of
             Inl e \<Rightarrow> Inl e
           | Inr dataObj_models \<Rightarrow>
               if \<not> typeof_object dataObj_models \<or> dataObj_models = Some JNull then Inr []
               else (case dataObj_models of
                       None \<Rightarrow> Inr []
                     | Some ms \<Rightarrow> models_loop dbl (Object_entries ms) []))"

text \<open>
  Property read on a value the source has already tested to be an object and not null
  (the reads of \<^verbatim>\<open>bucket.modelId\<close> and its siblings): it cannot throw.
\<close>

definition field :: "json \<Rightarrow> string \<Rightarrow> json option" where
  "field v k = (case get_prop v k of Inr x \<Rightarrow> x | Inl e \<Rightarrow> None)"

text \<open>
  One iteration of the bucket loop: an element that is an object and not null yields
  an entry, any other element is skipped.
\<close>

definition bucket_entry :: "(rat \<Rightarrow> jsnum) \<Rightarrow> json \<Rightarrow> GeminiCliBucket option" where
  "bucket_entry dbl b =
     (if typeof_object (Some b) \<and> b \<noteq> JNull then
        Some \<lparr>bucket_model =
                 (case as_string (field b ''modelId'') of Some s \<Rightarrow> s | None \<Rightarrow> ''unknown''),
               token_type = as_string (field b ''tokenType''),
               bucket_remaining_fraction = as_number (field b ''remainingFraction''),
               bucket_remaining_pct =
                 (case as_number (field b ''remainingFraction'') of
                    Some f \<Rightarrow> Some (Math_round (times100 dbl f))
                  | None \<Rightarrow> None),
               remaining_amount = as_string (field b ''remainingAmount''),
               bucket_reset_time = as_string (field b ''resetTime'')\<rparr>
      else None)"

fun is_array :: "json option \<Rightarrow> bool" where
  "is_array (Some (JArr xs)) = True"
| "is_array v = False"

fun array_elems :: "json option \<Rightarrow> json list" where
  "array_elems (Some (JArr xs)) = xs"
| "array_elems v = []"

definition parseGeminiCliQuota :: "(rat \<Rightarrow> jsnum) \<Rightarrow> json \<Rightarrow> GeminiCliBucket list" where
  "parseGeminiCliQuota dbl data =
     (if typeof_object (Some data) \<and> data \<noteq> JNull \<and> has_prop ''buckets'' data then
        (if is_array (field data ''buckets'')
         then List.map_filter (bucket_entry dbl) (array_elems (field data ''buckets''))
         else [])
      else [])"

section \<open>The per-account pipeline and the aggregation (api/antigravity.ts)\<close>

text \<open>
  An account record. The loader's schema makes \<^verbatim>\<open>email\<close> and \<^verbatim>\<open>refreshToken\<close>
  strings; the pipeline tests both for falsiness, which an absent field and an empty
  string satisfy alike, so the model admits their absence as \<open>None\<close>.
\<close>

record AntigravityAccount =
  email :: "string option"
  refreshToken :: "string option"
  projectId :: "string option"
  enabled :: "bool option"

record AccountQuotaResult =
  account_index :: nat
  result_email :: string
  result_enabled :: bool
  result_projectId :: "string option"
  antigravity_models :: "AntigravityModel list"
  gemini_cli_quota :: "GeminiCliBucket list"
  errors :: "string list"

record summary_entry =
  best_remaining_pct :: jsnum
  accounts_available :: nat

record AllAccountsQuotaResult =
  total_accounts :: nat
  enabled_accounts :: nat
  accounts :: "AccountQuotaResult list"
  summary :: "(string \<times> summary_entry) list"

text \<open>
  The three outbound calls of one account's pipeline. Each either rejects, with the
  message text the pipeline reads off the rejection (\<open>Inl\<close>), or fulfils (\<open>Inr\<close>).
\<close>

record network =
  refreshAccessToken :: "string \<Rightarrow> string + string"
  fetchAntigravityModels :: "string \<Rightarrow> string option \<Rightarrow> string + json"
  fetchGeminiCliQuota :: "string \<Rightarrow> string option \<Rightarrow> string + json"

datatype net_call =
    RefreshAccessToken string
  | FetchAntigravityModels string "string option"
  | FetchGeminiCliQuota string "string option"

text \<open>The accounts file as the loader finds it.\<close>

datatype accounts_file =
    FileMissing
  | FileInvalid
  | FileAccounts "AntigravityAccount list"

definition loadAccounts :: "accounts_file \<Rightarrow> error + AntigravityAccount list" where
  "loadAccounts file =
     (case file of
        FileMissing \<Rightarrow> Inl AccountsFileNotFound
      | FileInvalid \<Rightarrow> Inl AccountsFileInvalid
      | FileAccounts parsed_accounts \<Rightarrow>
          if length parsed_accounts = 0 then Inl NoAccountsConfigured
          else Inr (map (\<lambda>acc. \<lparr>email = email acc, refreshToken = refreshToken acc,
                                  projectId = projectId acc, enabled = enabled acc\<rparr>)
                        parsed_accounts))"

text \<open>\<^verbatim>\<open>s || d\<close> on an optional string: \<open>d\<close> when \<open>s\<close> is undefined or empty.\<close>

fun truthy :: "string option \<Rightarrow> string option" where
  "truthy None = None"
| "truthy (Some s) = (if s = [] then None else Some s)"

text \<open>The first statement of the pipeline: the result object before any check.\<close>

definition initial_result :: "AntigravityAccount \<Rightarrow> nat \<Rightarrow> AccountQuotaResult" where
  "initial_result account index =
     \<lparr>account_index = index,
      result_email =
        (case truthy (email account) of
           Some e \<Rightarrow> e
         | None \<Rightarrow> ''account_'' @ nat_to_string index),
      result_enabled = (enabled account \<noteq> Some False),
      result_projectId = truthy (projectId account),
      antigravity_models = [],
      gemini_cli_quota = [],
      errors = []\<rparr>"

text \<open>\<^verbatim>\<open>result.errors.push(e)\<close>\<close>

definition push_error :: "string \<Rightarrow> AccountQuotaResult \<Rightarrow> AccountQuotaResult" where
  "push_error e result = result\<lparr>errors := errors result @ [e]\<rparr>"

text \<open>
  The part of the pipeline after \<^verbatim>\<open>Promise.allSettled\<close>: the two settled fetches are
  looked at in turn. Parsing the model payload may throw, which ends the pipeline.
\<close>

definition settle_fetches ::
  "(rat \<Rightarrow> jsnum) \<Rightarrow> AccountQuotaResult \<Rightarrow> string + json \<Rightarrow> string + json
     \<Rightarrow> error + AccountQuotaResult" where
  "settle_fetches dbl result agResult gcResult =
     (case (case agResult of
              Inr v \<Rightarrow>
                (case parseAntigravityModels dbl v of
                   Inl e \<Rightarrow> Inl e
                 | Inr ms \<Rightarrow> Inr (result\<lparr>antigravity_models := ms\<rparr>))
            | Inl reason \<Rightarrow> Inr (push_error (''Antigravity models: '' @ reason) result)) of
        Inl e \<Rightarrow> Inl e
      | Inr result1 \<Rightarrow>
          (case gcResult of
             Inr v \<Rightarrow> Inr (result1\<lparr>gemini_cli_quota := parseGeminiCliQuota dbl v\<rparr>)
           | Inl reason \<Rightarrow> Inr (push_error (''Gemini CLI quota: '' @ reason) result1)))"

text \<open>
  The pipeline returns the outbound calls it made, in the order it started them, and
  either its result or the error it threw. Both quota fetches are started before
  either payload is parsed.
\<close>

definition getAntigravityAccountQuota ::
  "(rat \<Rightarrow> jsnum) \<Rightarrow> network \<Rightarrow> AntigravityAccount \<Rightarrow> nat
     \<Rightarrow> net_call list \<times> (error + AccountQuotaResult)" where
  "getAntigravityAccountQuota dbl net account index =
     (let result = initial_result account index
      in if \<not> result_enabled result then
           ([], Inr (push_error ''Account is disabled'' result))
         else case truthy (refreshToken account) of
           None \<Rightarrow> ([], Inr (push_error ''No refresh token stored for this account'' result))
         | Some token \<Rightarrow>
             (case refreshAccessToken net token of
                Inl message \<Rightarrow>
                  ([RefreshAccessToken token],
                   Inr (push_error (''Token refresh failed: '' @ message) result))
              | Inr accessToken \<Rightarrow>
                  ([RefreshAccessToken token,
                    FetchAntigravityModels accessToken (projectId account),
                    FetchGeminiCliQuota accessToken (projectId account)],
                   settle_fetches dbl result
                     (fetchAntigravityModels net accessToken (projectId account))
                     (fetchGeminiCliQuota net accessToken (projectId account)))))"

subsection \<open>Cross-account summary\<close>

text \<open>
  The summary is an object literal, so besides its own properties (the list, in
  insertion order) it inherits the members of \<^verbatim>\<open>Object.prototype\<close>. These are the
  names the runtimes give that prototype.
\<close>

definition Object_prototype_members :: "string list" where
  "Object_prototype_members =
     [''constructor'', ''__defineGetter__'', ''__defineSetter__'', ''hasOwnProperty'',
      ''__lookupGetter__'', ''__lookupSetter__'', ''isPrototypeOf'', ''propertyIsEnumerable'',
      ''toString'', ''valueOf'', ''__proto__'', ''toLocaleString'']"

text \<open>
  The state of the summary pass: the own properties of \<^verbatim>\<open>modelSummary\<close>, and whether
  \<^verbatim>\<open>Object.prototype\<close> carries the two counters. It comes to carry them when the pass
  writes them onto the value of \<^verbatim>\<open>modelSummary["__proto__"]\<close>, which is the prototype
  itself; they are then the number NaN, they are inherited by every object, and they
  stay for the rest of the process.
\<close>

record summary_pass =
  modelSummary :: "(string \<times> summary_entry) list"
  prototype_polluted :: bool

text \<open>
  \<^verbatim>\<open>modelSummary[key]\<close>: the own entry; else an inherited member, which is the prototype
  object for \<^verbatim>\<open>__proto__\<close>, a function for the other members, and the number NaN for a
  counter the prototype carries; else undefined.
\<close>

datatype summary_value =
    Own summary_entry
  | Inherited_function
  | Inherited_prototype
  | Inherited_number
  | Absent

definition summary_get :: "summary_pass \<Rightarrow> string \<Rightarrow> summary_value" where
  "summary_get st key =
     (case map_of (modelSummary st) key of
        Some entry \<Rightarrow> Own entry
      | None \<Rightarrow>
          if key = ''__proto__'' then Inherited_prototype
          else if key \<in> set Object_prototype_members then Inherited_function
          else if prototype_polluted st
                  \<and> (key = ''accounts_available'' \<or> key = ''best_remaining_pct'')
            then Inherited_number
          else Absent)"

text \<open>\<^verbatim>\<open>key in modelSummary\<close>: true of an own and of an inherited property.\<close>

definition key_in :: "string \<Rightarrow> summary_pass \<Rightarrow> bool" where
  "key_in key st =
     (map_of (modelSummary st) key \<noteq> None
      \<or> key \<in> set Object_prototype_members
      \<or> (prototype_polluted st
           \<and> (key = ''accounts_available'' \<or> key = ''best_remaining_pct'')))"

text \<open>
  One loop iteration of the modular server for a key and a percentage. The entry is
  created unless the key is \<^verbatim>\<open>in\<close> the summary. When the percentage is a number above
  zero the two counters are written onto \<^verbatim>\<open>modelSummary[key]\<close>: onto the own entry; onto
  an inherited function, which leaves the summary as it is; onto the prototype; or onto
  an inherited number, where the assignment throws a TypeError (the module is strict
  code).
\<close>

definition summary_step :: "string \<Rightarrow> jsnum option \<Rightarrow> summary_pass \<Rightarrow> error + summary_pass" where
  "summary_step key pct st =
     (let st1 =
            (if \<not> key_in key st
             then st\<lparr>modelSummary := modelSummary st
                        @ [(key, \<lparr>best_remaining_pct = Fin (- 1), accounts_available = 0\<rparr>)]\<rparr>
             else st)
      in case pct of
           None \<Rightarrow> Inr st1
         | Some p \<Rightarrow>
             if \<not> js_gt p (Fin 0) then Inr st1
             else (case summary_get st1 key of
                     Own entry0 \<Rightarrow>
                       Inr (st1\<lparr>modelSummary :=
                              map (\<lambda>(k, entry).
                                     if k = key
                                     then (k, entry\<lparr>accounts_available := accounts_available entry + 1,
                                                     best_remaining_pct :=
                                                       Math_max (best_remaining_pct entry) p\<rparr>)
                                     else (k, entry)) (modelSummary st1)\<rparr>)
                   | Inherited_function \<Rightarrow> Inr st1
                   | Inherited_prototype \<Rightarrow> Inr (st1\<lparr>prototype_polluted := True\<rparr>)
                   | Inherited_number \<Rightarrow> Inl TypeError
                   | Absent \<Rightarrow> Inr st1))"

text \<open>
  The same iteration in the single-file server (agent-usage-mcp.js), which creates the
  entry when \<^verbatim>\<open>modelSummary[key]\<close> is falsy (undefined, or the number NaN) and is not
  strict code. It never throws.
\<close>

definition summary_step_single_file ::
  "string \<Rightarrow> jsnum option \<Rightarrow> summary_pass \<Rightarrow> error + summary_pass" where
  "summary_step_single_file key pct st =
     (let st1 =
            (if summary_get st key = Absent \<or> summary_get st key = Inherited_number
             then st\<lparr>modelSummary := modelSummary st
                        @ [(key, \<lparr>best_remaining_pct = Fin (- 1), accounts_available = 0\<rparr>)]\<rparr>
             else st)
      in case pct of
           None \<Rightarrow> Inr st1
         | Some p \<Rightarrow>
             if \<not> js_gt p (Fin 0) then Inr st1
             else (case summary_get st1 key of
                     Own entry0 \<Rightarrow>
                       Inr (st1\<lparr>modelSummary :=
                              map (\<lambda>(k, entry).
                                     if k = key
                                     then (k, entry\<lparr>accounts_available := accounts_available entry + 1,
                                                     best_remaining_pct :=
                                                       Math_max (best_remaining_pct entry) p\<rparr>)
                                     else (k, entry)) (modelSummary st1)\<rparr>)
                   | Inherited_prototype \<Rightarrow> Inr (st1\<lparr>prototype_polluted := True\<rparr>)
                   | _ \<Rightarrow> Inr st1))"

text \<open>A \<^verbatim>\<open>for ... of\<close> loop over a list whose body may throw.\<close>

fun for_each :: "('a \<Rightarrow> 's \<Rightarrow> error + 's) \<Rightarrow> 'a list \<Rightarrow> 's \<Rightarrow> error + 's" where
  "for_each body [] st = Inr st"
| "for_each body (x # xs) st =
     (case body x st of Inl e \<Rightarrow> Inl e | Inr st1 \<Rightarrow> for_each body xs st1)"

text \<open>
  The body of the loop over the results, which is the same in both servers but for the
  iteration \<open>step\<close>: a disabled account is skipped, then the model entries and the
  bucket entries are gone through.
\<close>

definition summarise_account ::
  "(string \<Rightarrow> jsnum option \<Rightarrow> summary_pass \<Rightarrow> error + summary_pass)
     \<Rightarrow> AccountQuotaResult \<Rightarrow> summary_pass \<Rightarrow> error + summary_pass" where
  "summarise_account step acct st =
     (if \<not> result_enabled acct then Inr st
      else case for_each (\<lambda>m. step (model m) (remaining_pct m)) (antigravity_models acct) st of
             Inl e \<Rightarrow> Inl e
           | Inr st1 \<Rightarrow>
               for_each (\<lambda>b. step (''gemini-cli:'' @ bucket_model b) (bucket_remaining_pct b))
                 (gemini_cli_quota acct) st1)"

text \<open>
  The pass starts from the empty object; \<open>polluted\<close> tells whether an earlier pass of the
  same process has left the counters on the prototype.
\<close>

definition build_summary :: "bool \<Rightarrow> AccountQuotaResult list \<Rightarrow> error + summary_pass" where
  "build_summary polluted results =
     for_each (summarise_account summary_step) results
       \<lparr>modelSummary = [], prototype_polluted = polluted\<rparr>"

definition build_summary_single_file ::
  "bool \<Rightarrow> AccountQuotaResult list \<Rightarrow> error + summary_pass" where
  "build_summary_single_file polluted results =
     for_each (summarise_account summary_step_single_file) results
       \<lparr>modelSummary = [], prototype_polluted = polluted\<rparr>"

text \<open>
  \<^verbatim>\<open>Promise.all\<close>: fulfils with every value when all fulfil and rejects as soon as one
  rejects. Which rejection wins when several pipelines throw depends on timing; the
  model reports the first in list order.
\<close>

fun Promise_all :: "(error + 'a) list \<Rightarrow> error + 'a list" where
  "Promise_all [] = Inr []"
| "Promise_all (Inl e # ps) = Inl e"
| "Promise_all (Inr v # ps) = (case Promise_all ps of Inl e \<Rightarrow> Inl e | Inr vs \<Rightarrow> Inr (v # vs))"

text \<open>
  The outbound calls of account \<open>i\<close> are answered by \<open>nets i\<close>. The summary returned is
  the own properties the pass ends with; a throw of the pass rejects the call.
\<close>

definition getAntigravityQuotaAll ::
  "(rat \<Rightarrow> jsnum) \<Rightarrow> bool \<Rightarrow> (nat \<Rightarrow> network) \<Rightarrow> accounts_file
     \<Rightarrow> error + AllAccountsQuotaResult" where
  "getAntigravityQuotaAll dbl polluted nets file =
     (case loadAccounts file of
        Inl e \<Rightarrow> Inl e
      | Inr accs \<Rightarrow>
          (case Promise_all
                  (map (\<lambda>(i, acc). snd (getAntigravityAccountQuota dbl (nets i) acc i))
                     (enumerate 0 accs)) of
             Inl e \<Rightarrow> Inl e
           | Inr results \<Rightarrow>
               (case build_summary polluted results of
                  Inl e \<Rightarrow> Inl e
                | Inr pass \<Rightarrow>
                    Inr \<lparr>total_accounts = length accs,
                         enabled_accounts =
                           length (filter (\<lambda>a. enabled a \<noteq> Some False) accs),
                         accounts = results,
                         summary = modelSummary pass\<rparr>)))"

subsection \<open>Single-account lookup\<close>

fun js_lt :: "jsnum \<Rightarrow> jsnum \<Rightarrow> bool" where
  "js_lt a b = js_gt b a"

fun js_ge :: "jsnum \<Rightarrow> jsnum \<Rightarrow> bool" where
  "js_ge NaN b = False"
| "js_ge a NaN = False"
| "js_ge a b = (\<not> js_gt b a)"

fun js_le :: "jsnum \<Rightarrow> jsnum \<Rightarrow> bool" where
  "js_le a b = js_ge b a"

text \<open>The declared type of the identifier: \<^verbatim>\<open>string | number\<close>.\<close>

datatype account_identifier = IdNumber jsnum | IdString string

text \<open>\<^verbatim>\<open>/^\d+$/\<close>: one or more characters, each an ASCII digit.\<close>

definition is_digit :: "char \<Rightarrow> bool" where
  "is_digit c = ((48::nat) \<le> of_char c \<and> of_char c \<le> (57::nat))"

definition NUMERIC_STRING_REGEX_test :: "string \<Rightarrow> bool" where
  "NUMERIC_STRING_REGEX_test s = (s \<noteq> [] \<and> list_all is_digit s)"

text \<open>
  \<^verbatim>\<open>Number\<close> of a digit string: its decimal value, rounded to a double.
\<close>

definition digits_value :: "string \<Rightarrow> nat" where
  "digits_value s = foldl (\<lambda>n c. 10 * n + (of_char c - 48)) 0 s"

definition Number_of_digits :: "(rat \<Rightarrow> jsnum) \<Rightarrow> string \<Rightarrow> jsnum" where
  "Number_of_digits dbl s = dbl (of_nat (digits_value s))"

text \<open>\<^verbatim>\<open>findIndex\<close>: the first position that satisfies the predicate, if any.\<close>

fun findIndex :: "('a \<Rightarrow> bool) \<Rightarrow> 'a list \<Rightarrow> nat option" where
  "findIndex P [] = None"
| "findIndex P (x # xs) =
     (if P x then Some 0 else (case findIndex P xs of None \<Rightarrow> None | Some i \<Rightarrow> Some (Suc i)))"

text \<open>
  \<^verbatim>\<open>accounts[index]\<close>: defined only when the number is an integer that indexes the
  array.
\<close>

fun array_at :: "'a list \<Rightarrow> jsnum \<Rightarrow> (nat \<times> 'a) option" where
  "array_at xs (Fin q) =
     (if q = of_int \<lfloor>q\<rfloor> \<and> 0 \<le> q \<and> nat \<lfloor>q\<rfloor> < length xs
      then Some (nat \<lfloor>q\<rfloor>, xs ! nat \<lfloor>q\<rfloor>) else None)"
| "array_at xs v = None"

text \<open>The index the identifier resolves to; \<open>toLowerCase\<close> is the string method.\<close>

definition resolve_index ::
  "(rat \<Rightarrow> jsnum) \<Rightarrow> (string \<Rightarrow> string) \<Rightarrow> AntigravityAccount list \<Rightarrow> account_identifier
     \<Rightarrow> error + jsnum" where
  "resolve_index dbl toLowerCase accs ident =
     (case ident of
        IdNumber n \<Rightarrow> Inr n
      | IdString s \<Rightarrow>
          if NUMERIC_STRING_REGEX_test s then Inr (Number_of_digits dbl s)
          else (case findIndex
                       (\<lambda>a. case truthy (email a) of
                              None \<Rightarrow> False
                            | Some e \<Rightarrow> toLowerCase e = toLowerCase s) accs of
                  None \<Rightarrow> Inl (AccountNotFound (JStr s))
                | Some i \<Rightarrow> Inr (Fin (of_nat i))))"

definition getAntigravityQuotaSingle ::
  "(rat \<Rightarrow> jsnum) \<Rightarrow> (string \<Rightarrow> string) \<Rightarrow> network \<Rightarrow> accounts_file \<Rightarrow> account_identifier
     \<Rightarrow> net_call list \<times> (error + AccountQuotaResult)" where
  "getAntigravityQuotaSingle dbl toLowerCase net file ident =
     (case loadAccounts file of
        Inl e \<Rightarrow> ([], Inl e)
      | Inr accs \<Rightarrow>
          (case resolve_index dbl toLowerCase accs ident of
             Inl e \<Rightarrow> ([], Inl e)
           | Inr index \<Rightarrow>
               if js_lt index (Fin 0) \<or> js_ge index (Fin (of_nat (length accs)))
               then ([], Inl (IndexOutOfRange index (length accs)))
               else (case array_at accs index of
                       None \<Rightarrow> ([], Inl (AccountAtIndexNotFound index))
                     | Some (i, account) \<Rightarrow> getAntigravityAccountQuota dbl net account i)))"

section \<open>Usage tools (utils/time.ts, tools/zai.ts, and the single-file server)\<close>

text \<open>
  \<^verbatim>\<open>Number(v)\<close>. An object or an array is first converted to a primitive, which may
  throw; an object that converts gives the text \<^verbatim>\<open>[object Object]\<close>, which is no
  number. The number a string, or the text of an array, denotes is given by the
  runtime's string-to-number algorithm, the parameter \<open>ToNumber\<close>.
\<close>

definition Number_coerce :: "(json \<Rightarrow> jsnum) \<Rightarrow> json option \<Rightarrow> error + jsnum" where
  "Number_coerce ToNumber v =
     (case v of
        None \<Rightarrow> Inr NaN
      | Some JNull \<Rightarrow> Inr (Fin 0)
      | Some (JBool b) \<Rightarrow> Inr (Fin (if b then 1 else 0))
      | Some (JNum n) \<Rightarrow> Inr n
      | Some (JStr s) \<Rightarrow> Inr (ToNumber (JStr s))
      | Some (JArr xs) \<Rightarrow>
          if ToPrimitive_throws (JArr xs) then Inl TypeError else Inr (ToNumber (JArr xs))
      | Some (JObj kvs) \<Rightarrow>
          if ToPrimitive_throws (JObj kvs) then Inl TypeError else Inr NaN)"

fun Number_isFinite :: "jsnum \<Rightarrow> bool" where
  "Number_isFinite (Fin q) = True"
| "Number_isFinite x = False"

text \<open>
  The modular server's check (the test \<^verbatim>\<open>typeof parsed !== "number"\<close> never holds). The
  error built in the failing branch carries the value, whose text the message holds.
\<close>

definition validateHours :: "(json \<Rightarrow> jsnum) \<Rightarrow> json option \<Rightarrow> error + jsnum" where
  "validateHours ToNumber hours =
     (case hours of
        None \<Rightarrow> Inr (Fin 24)
      | Some h \<Rightarrow>
          (case Number_coerce ToNumber hours of
             Inl e \<Rightarrow> Inl e
           | Inr parsed \<Rightarrow>
               if \<not> Number_isFinite parsed \<or> js_le parsed (Fin 0)
               then Inl (InvalidHours h)
               else Inr parsed))"

text \<open>The single-file server's function of the same name (agent-usage-mcp.js).\<close>

definition validateHours_single_file ::
  "(json \<Rightarrow> jsnum) \<Rightarrow> json option \<Rightarrow> error + jsnum" where
  "validateHours_single_file ToNumber hours =
     (case Number_coerce ToNumber hours of
        Inl e \<Rightarrow> Inl e
      | Inr parsed \<Rightarrow>
          if Number_isFinite parsed \<and> js_gt parsed (Fin 0) then Inr parsed else Inr (Fin 24))"

text \<open>
  The usage-metering client: each fetch rejects with a message or fulfils with the
  reshaped result.
\<close>

record zai_api =
  fetchQuota :: "string + json"
  fetchModelUsage :: "jsnum \<Rightarrow> string + json"
  fetchToolUsage :: "jsnum \<Rightarrow> string + json"

datatype zai_call = FetchQuota | FetchModelUsage jsnum | FetchToolUsage jsnum

definition upstream :: "string + json \<Rightarrow> error + json" where
  "upstream r = (case r of Inl message \<Rightarrow> Inl (Upstream message) | Inr v \<Rightarrow> Inr v)"

definition getQuota :: "zai_api \<Rightarrow> zai_call list \<times> (error + json)" where
  "getQuota api = ([FetchQuota], upstream (fetchQuota api))"

definition getModelUsage ::
  "(json \<Rightarrow> jsnum) \<Rightarrow> zai_api \<Rightarrow> json option \<Rightarrow> zai_call list \<times> (error + json)" where
  "getModelUsage ToNumber api hours =
     (case validateHours ToNumber hours of
        Inl e \<Rightarrow> ([], Inl e)
      | Inr h \<Rightarrow> ([FetchModelUsage h], upstream (fetchModelUsage api h)))"

definition getToolUsage ::
  "(json \<Rightarrow> jsnum) \<Rightarrow> zai_api \<Rightarrow> json option \<Rightarrow> zai_call list \<times> (error + json)" where
  "getToolUsage ToNumber api hours =
     (case validateHours ToNumber hours of
        Inl e \<Rightarrow> ([], Inl e)
      | Inr h \<Rightarrow> ([FetchToolUsage h], upstream (fetchToolUsage api h)))"

text \<open>
  The three calls are started together; the combined call fails when one of them does
  (the first failure in list order is reported).
\<close>

definition getFullUsage ::
  "(json \<Rightarrow> jsnum) \<Rightarrow> zai_api \<Rightarrow> json option \<Rightarrow> zai_call list \<times> (error + json)" where
  "getFullUsage ToNumber api hours =
     (case validateHours ToNumber hours of
        Inl e \<Rightarrow> ([], Inl e)
      | Inr validHours \<Rightarrow>
          (let quota = getQuota api;
               model_usage = getModelUsage ToNumber api (Some (JNum validHours));
               tool_usage = getToolUsage ToNumber api (Some (JNum validHours))
           in (fst quota @ fst model_usage @ fst tool_usage,
               case snd quota of
                 Inl e \<Rightarrow> Inl e
               | Inr q \<Rightarrow>
                   (case snd model_usage of
                      Inl e \<Rightarrow> Inl e
                    | Inr m \<Rightarrow>
                        (case snd tool_usage of
                           Inl e \<Rightarrow> Inl e
                         | Inr t \<Rightarrow>
                             Inr (JObj [(''quota'', q), (''model_usage'', m),
                                        (''tool_usage'', t)]))))))"

section \<open>Protocol dispatcher (server.ts, tools/registry.ts)\<close>

text \<open>
  What the dispatcher takes from the runtime: \<^verbatim>\<open>trim\<close>, \<^verbatim>\<open>JSON.parse\<close> (\<open>None\<close> when
  it throws), \<^verbatim>\<open>JSON.stringify(v, null, 2)\<close>, the text a value that converts has inside
  a template literal, and the message of the TypeError raised on a value (undefined or
  null whose property is read, or an object that does not convert to a primitive).
\<close>

record runtime =
  trim :: "string \<Rightarrow> string"
  JSON_parse :: "string \<Rightarrow> json option"
  JSON_stringify :: "json \<Rightarrow> string"
  template :: "json option \<Rightarrow> string"
  typeErrorMessage :: "json option \<Rightarrow> string"

text \<open>
  The outcome of each tool handler once awaited: the message of the error it rejects
  with, or its result.
\<close>

record tool_handlers =
  run_getFullUsage :: "json option \<Rightarrow> string + json"
  run_getQuota :: "string + json"
  run_getModelUsage :: "json option \<Rightarrow> string + json"
  run_getToolUsage :: "json option \<Rightarrow> string + json"
  run_getAntigravityQuota :: "string + json"
  run_getAntigravityAccountQuota :: "json option \<Rightarrow> string + json"

definition hours_schema :: "string \<Rightarrow> json" where
  "hours_schema description =
     JObj [(''type'', JStr ''object''),
           (''properties'',
            JObj [(''hours'',
                   JObj [(''type'', JStr ''number''),
                         (''description'', JStr description),
                         (''default'', JNum (Fin 24))])])]"

definition empty_schema :: json where
  "empty_schema = JObj [(''type'', JStr ''object''), (''properties'', JObj [])]"

definition tool :: "string \<Rightarrow> string \<Rightarrow> json \<Rightarrow> json" where
  "tool name description inputSchema =
     JObj [(''name'', JStr name), (''description'', JStr description),
           (''inputSchema'', inputSchema)]"

definition TOOLS :: json where
  "TOOLS = JArr
     [tool ''get_usage''
        ''Get a complete overview of Z.AI account usage including quota limits, model token usage, and tool usage (web search, web reader). This is the recommended tool for a full usage summary.''
        (hours_schema
           ''Number of hours to look back for usage data (default: 24). Quota limits are always current regardless of this value.''),
      tool ''get_quota''
        ''Get your Z.AI account quota limits, including token usage (5h window), MCP monthly usage, and percentage utilized.''
        empty_schema,
      tool ''get_model_usage''
        ''Get token usage breakdown by model for your Z.AI account, including input and output tokens.''
        (hours_schema ''Number of hours to look back (default: 24). Must be greater than 0.''),
      tool ''get_tool_usage''
        ''Get usage count for Z.AI tools including web search and web reader MCP.''
        (hours_schema ''Number of hours to look back (default: 24). Must be greater than 0.''),
      tool ''get_antigravity_quota''
        ''Get Antigravity (Google Cloud Code) quota for all configured accounts. Returns available models and Gemini CLI quota across all accounts with a summary.''
        empty_schema,
      tool ''get_antigravity_account_quota''
        ''Get Antigravity quota for a specific account by email or index (0-based).''
        (JObj [(''type'', JStr ''object''),
               (''properties'',
                JObj [(''account'',
                       JObj [(''type'', JArr [JStr ''string'', JStr ''number'']),
                             (''description'',
                              JStr ''Either the account email (string) or index (0, 1, 2, etc.).'')])]),
               (''required'', JArr [JStr ''account''])])]"

text \<open>
  A value inside a template literal: the message of the TypeError when its conversion
  throws, else its text.
\<close>

definition template_literal :: "runtime \<Rightarrow> json option \<Rightarrow> string + string" where
  "template_literal rt v =
     (case v of
        None \<Rightarrow> Inr (template rt None)
      | Some x \<Rightarrow>
          if ToPrimitive_throws x then Inl (typeErrorMessage rt (Some x))
          else Inr (template rt (Some x)))"

text \<open>\<open>Inl\<close> is the message of the error the call rejects or throws with.\<close>

definition executeTool ::
  "runtime \<Rightarrow> tool_handlers \<Rightarrow> json option \<Rightarrow> json \<Rightarrow> string + json" where
  "executeTool rt hs name args =
     (if name = Some (JStr ''get_usage'') then run_getFullUsage hs (field args ''hours'')
      else if name = Some (JStr ''get_quota'') then run_getQuota hs
      else if name = Some (JStr ''get_model_usage'') then run_getModelUsage hs (field args ''hours'')
      else if name = Some (JStr ''get_tool_usage'') then run_getToolUsage hs (field args ''hours'')
      else if name = Some (JStr ''get_antigravity_quota'') then run_getAntigravityQuota hs
      else if name = Some (JStr ''get_antigravity_account_quota'')
        then run_getAntigravityAccountQuota hs (field args ''account'')
      else (case template_literal rt name of
              Inl message \<Rightarrow> Inl message
            | Inr text \<Rightarrow> Inl (''Unknown tool: '' @ text)))"

text \<open>
  The envelopes. Each is the text \<^verbatim>\<open>JSON.stringify\<close> writes for the object built, and
  one output line; the text is represented by the value it denotes.
\<close>

definition makeResponse :: "json \<Rightarrow> json \<Rightarrow> json" where
  "makeResponse i result =
     JSON_written (JObj [(''jsonrpc'', JStr ''2.0''), (''id'', i), (''result'', result)])"

definition makeError :: "json \<Rightarrow> int \<Rightarrow> string \<Rightarrow> json" where
  "makeError i code message =
     JSON_written
       (JObj [(''jsonrpc'', JStr ''2.0''), (''id'', i),
              (''error'', JObj [(''code'', JNum (Fin (of_int code))),
                                (''message'', JStr message)])])"

text \<open>\<^verbatim>\<open>a ?? {}\<close>: the empty object when \<open>a\<close> is undefined or null.\<close>

fun or_empty_object :: "json option \<Rightarrow> json" where
  "or_empty_object None = JObj []"
| "or_empty_object (Some JNull) = JObj []"
| "or_empty_object (Some a) = a"

text \<open>
  The body of the \<^verbatim>\<open>tools/call\<close> case; every throw in it reaches the handler's
  \<^verbatim>\<open>catch\<close>, which answers with code -32000 and the error's message.
\<close>

definition tools_call :: "runtime \<Rightarrow> tool_handlers \<Rightarrow> json \<Rightarrow> json option \<Rightarrow> json" where
  "tools_call rt hs i params =
     (case params of
        None \<Rightarrow> makeError i (- 32000) (typeErrorMessage rt None)
      | Some p \<Rightarrow>
          (case get_prop p ''name'' of
             Inl e \<Rightarrow> makeError i (- 32000) (typeErrorMessage rt (Some p))
           | Inr name \<Rightarrow>
               (case executeTool rt hs name (or_empty_object (field p ''arguments'')) of
                  Inl message \<Rightarrow> makeError i (- 32000) message
                | Inr result \<Rightarrow>
                    makeResponse i
                      (JObj [(''content'',
                              JArr [JObj [(''type'', JStr ''text''),
                                          (''text'', JStr (JSON_stringify rt result))]])]))))"

text \<open>
  The dispatcher: \<open>Inl\<close> when the call itself throws (reading \<^verbatim>\<open>msg.id\<close> of null),
  \<open>Inr None\<close> when it returns null, \<open>Inr (Some envelope)\<close> when it returns a response.
  A throw inside the \<^verbatim>\<open>switch\<close>, the one of the template literal of the default case
  included, is answered with code -32000.
\<close>

definition handleMessage :: "runtime \<Rightarrow> tool_handlers \<Rightarrow> json \<Rightarrow> error + json option" where
  "handleMessage rt hs msg =
     (case get_prop msg ''id'' of
        Inl e \<Rightarrow> Inl e
      | Inr None \<Rightarrow> Inr None
      | Inr (Some i) \<Rightarrow>
          (let method = field msg ''method''
           in Inr (Some
                (if method = Some (JStr ''initialize'') then
                   makeResponse i
                     (JObj [(''protocolVersion'', JStr ''2024-11-05''),
                            (''capabilities'', JObj [(''tools'', JObj [])]),
                            (''serverInfo'',
                             JObj [(''name'', JStr ''zai-usage''),
                                   (''version'', JStr ''2.0.0'')])])
                 else if method = Some (JStr ''ping'') then makeResponse i (JObj [])
                 else if method = Some (JStr ''tools/list'') then
                   makeResponse i (JObj [(''tools'', TOOLS)])
                 else if method = Some (JStr ''tools/call'') then
                   tools_call rt hs i (field msg ''params'')
                 else (case template_literal rt method of
                         Inl message \<Rightarrow> makeError i (- 32000) message
                       | Inr text \<Rightarrow>
                           makeError i (- 32601) (''Method not found: '' @ text))))))"

section \<open>Transport loop and request tracker\<close>

text \<open>
  The two module variables, the exit flag and the lines written so far. Three history
  fields record the handlers started: those still awaiting their dispatch, those that
  have finished, and how many were started.
\<close>

record transport =
  pendingRequests :: int
  stdinClosed :: bool
  exited :: bool
  stdout :: "json list"
  inflight :: "(nat \<times> json) list"
  finished :: "(nat \<times> json) list"
  dispatched :: nat

definition initial :: transport where
  "initial = \<lparr>pendingRequests = 0, stdinClosed = False, exited = False, stdout = [],
              inflight = [], finished = [], dispatched = 0\<rparr>"

definition sendMessage :: "json \<Rightarrow> transport \<Rightarrow> transport" where
  "sendMessage data s = s\<lparr>stdout := stdout s @ [data]\<rparr>"

definition checkExit :: "transport \<Rightarrow> transport" where
  "checkExit s = (if stdinClosed s \<and> pendingRequests s = 0 then s\<lparr>exited := True\<rparr> else s)"

definition parse_error :: json where
  "parse_error =
     JSON_written (JObj [(''jsonrpc'', JStr ''2.0''), (''id'', JNull),
           (''error'', JObj [(''code'', JNum (Fin (- 32700))), (''message'', JStr ''Parse error'')])])"

text \<open>The line handler up to its \<^verbatim>\<open>await\<close>.\<close>

definition on_line :: "runtime \<Rightarrow> string \<Rightarrow> transport \<Rightarrow> transport" where
  "on_line rt line s =
     (let trimmed = trim rt line
      in if trimmed = [] then s
         else case JSON_parse rt trimmed of
                None \<Rightarrow> sendMessage parse_error s
              | Some msg \<Rightarrow>
                  s\<lparr>pendingRequests := pendingRequests s + 1,
                    inflight := inflight s @ [(dispatched s, msg)],
                    dispatched := dispatched s + 1\<rparr>)"

text \<open>
  The rest of the line handler, run when the dispatch of handler \<open>k\<close> settles: write
  the response if there is one (a serialised envelope is never the empty string), then
  the \<^verbatim>\<open>finally\<close> block.
\<close>

definition on_settle :: "runtime \<Rightarrow> tool_handlers \<Rightarrow> nat \<Rightarrow> transport \<Rightarrow> transport" where
  "on_settle rt hs k s =
     (case map_of (inflight s) k of
        None \<Rightarrow> s
      | Some msg \<Rightarrow>
          (let s1 = (case handleMessage rt hs msg of
                       Inr (Some response) \<Rightarrow> sendMessage response s
                     | _ \<Rightarrow> s)
           in checkExit
                (s1\<lparr>pendingRequests := pendingRequests s1 - 1,
                    inflight := filter (\<lambda>p. fst p \<noteq> k) (inflight s1),
                    finished := finished s1 @ [(k, msg)]\<rparr>)))"

definition on_close :: "transport \<Rightarrow> transport" where
  "on_close s = checkExit (s\<lparr>stdinClosed := True\<rparr>)"

text \<open>
  The states the loop can be in. Lines arrive only while the input is open, a dispatch
  settles only while it is pending, and nothing runs after the exit.
\<close>

inductive reachable :: "runtime \<Rightarrow> tool_handlers \<Rightarrow> transport \<Rightarrow> bool"
  for rt :: runtime and hs :: tool_handlers where
  start: "reachable rt hs initial"
| line: "reachable rt hs s \<Longrightarrow> \<not> stdinClosed s \<Longrightarrow> \<not> exited s
           \<Longrightarrow> reachable rt hs (on_line rt l s)"
| settle: "reachable rt hs s \<Longrightarrow> \<not> exited s \<Longrightarrow> map_of (inflight s) k \<noteq> None
           \<Longrightarrow> reachable rt hs (on_settle rt hs k s)"
| close: "reachable rt hs s \<Longrightarrow> \<not> stdinClosed s \<Longrightarrow> \<not> exited s
           \<Longrightarrow> reachable rt hs (on_close s)"

section \<open>Notions the properties are stated with\<close>

text \<open>
  The notions of this section follow the wording of the specification, not the code.
  First the rounded percentage: \<open>p\<close> is the percentage of the fraction \<open>f\<close> when it is
  the integer nearest to the double product of \<open>f\<close> and 100, a half going up; a product
  that is no finite number (the fraction is none, or the product overflows) is its own
  percentage.
\<close>

definition percentage_of :: "(rat \<Rightarrow> jsnum) \<Rightarrow> jsnum \<Rightarrow> jsnum \<Rightarrow> bool" where
  "percentage_of dbl f p =
     (case f of
        Fin q \<Rightarrow>
          (case dbl (q * 100) of
             Fin x \<Rightarrow>
               (case p of
                  Fin y \<Rightarrow> of_int \<lfloor>y\<rfloor> = y \<and> y - 1 / 2 \<le> x \<and> x < y + 1 / 2
                | _ \<Rightarrow> False)
           | product \<Rightarrow> p = product)
      | _ \<Rightarrow> p = f)"

text \<open>A parsed value that holds no number other than finite ones.\<close>

fun finite_json :: "json \<Rightarrow> bool" where
  "finite_json (JNum n) = Number_isFinite n"
| "finite_json (JArr xs) = list_all finite_json xs"
| "finite_json (JObj kvs) = list_all (\<lambda>(k, v). finite_json v) kvs"
| "finite_json v = True"

text \<open>
  A key of the summary that names no inherited property, given whether the prototype
  carries the counters.
\<close>

definition plain_key :: "bool \<Rightarrow> string \<Rightarrow> bool" where
  "plain_key polluted key =
     (key \<notin> set Object_prototype_members
      \<and> \<not> (polluted \<and> (key = ''accounts_available'' \<or> key = ''best_remaining_pct'')))"

text \<open>
  The keyed
  percentages that the entries of the enabled accounts present, in order: a model entry
  under its model name, a bucket entry under \<^verbatim>\<open>gemini-cli:\<close> followed by its model.
\<close>

definition summary_inputs :: "AccountQuotaResult list \<Rightarrow> (string \<times> jsnum option) list" where
  "summary_inputs results =
     concat (map (\<lambda>acct.
        if result_enabled acct
        then map (\<lambda>m. (model m, remaining_pct m)) (antigravity_models acct)
             @ map (\<lambda>b. (''gemini-cli:'' @ bucket_model b, bucket_remaining_pct b))
                 (gemini_cli_quota acct)
        else []) results)"

text \<open>The percentages above zero that are presented under one key.\<close>

definition available :: "string \<Rightarrow> (string \<times> jsnum option) list \<Rightarrow> jsnum list" where
  "available key inputs =
     concat (map (\<lambda>(k, pct).
        case pct of
          Some p \<Rightarrow> if k = key \<and> js_gt p (Fin 0) then [p] else []
        | None \<Rightarrow> []) inputs)"

text \<open>
  Auxiliary notions for the proofs about the summary: what one loop iteration does to
  the own properties when its key is plain, what it does to the entry of its key, the
  entry a new key starts with, and the percentages presented under one key.
\<close>

definition own_step ::
  "string \<Rightarrow> jsnum option \<Rightarrow> (string \<times> summary_entry) list \<Rightarrow> (string \<times> summary_entry) list" where
  "own_step key pct own =
     (let own1 =
            (if map_of own key = None
             then own @ [(key, \<lparr>best_remaining_pct = Fin (- 1), accounts_available = 0\<rparr>)]
             else own)
      in case pct of
           None \<Rightarrow> own1
         | Some p \<Rightarrow>
             if js_gt p (Fin 0)
             then map (\<lambda>(k, entry).
                        if k = key
                        then (k, entry\<lparr>accounts_available := accounts_available entry + 1,
                                        best_remaining_pct :=
                                          Math_max (best_remaining_pct entry) p\<rparr>)
                        else (k, entry)) own1
             else own1)"

definition raise_entry :: "jsnum option \<Rightarrow> summary_entry \<Rightarrow> summary_entry" where
  "raise_entry pct entry =
     (case pct of
        None \<Rightarrow> entry
      | Some p \<Rightarrow>
          if js_gt p (Fin 0)
          then entry\<lparr>accounts_available := accounts_available entry + 1,
                      best_remaining_pct := Math_max (best_remaining_pct entry) p\<rparr>
          else entry)"

definition fresh_entry :: summary_entry where
  "fresh_entry = \<lparr>best_remaining_pct = Fin (- 1), accounts_available = 0\<rparr>"

definition keyed :: "string \<Rightarrow> (string \<times> jsnum option) list \<Rightarrow> jsnum option list" where
  "keyed key inputs = map snd (filter (\<lambda>kp. fst kp = key) inputs)"


text \<open>
  What holds in every state of the loop: the counter counts the handlers in flight,
  each of which was started and has its own number; a handler started is in flight or
  has finished; the response of a finished handler is among the lines written; and the
  exit flag is set exactly when the input is closed and the counter is zero.
\<close>

definition tracker_inv :: "runtime \<Rightarrow> tool_handlers \<Rightarrow> transport \<Rightarrow> bool" where
  "tracker_inv rt hs s \<longleftrightarrow>
     pendingRequests s = int (length (inflight s))
     \<and> distinct (map fst (inflight s))
     \<and> fst ` set (inflight s) \<union> fst ` set (finished s) = {..<dispatched s}
     \<and> (\<forall>(k, msg)\<in>set (finished s). \<forall>response.
            handleMessage rt hs msg = Inr (Some response) \<longrightarrow> response \<in> set (stdout s))
     \<and> (exited s \<longleftrightarrow> stdinClosed s \<and> pendingRequests s = 0)"

text \<open>
  An account's email matches an identifier when the account has an email, the email is
  not empty, and the two agree once both are lower-cased.
\<close>

definition email_matches :: "(string \<Rightarrow> string) \<Rightarrow> string \<Rightarrow> AntigravityAccount \<Rightarrow> bool" where
  "email_matches toLowerCase s a =
     (case email a of
        None \<Rightarrow> False
      | Some e \<Rightarrow> e \<noteq> [] \<and> toLowerCase e = toLowerCase s)"

section \<open>Example inputs\<close>

text \<open>
  The fractions of the examples are doubles whose products by 100 are doubles too
  (37.5, 31.25 and 68.75), so the exact product is the double product there.
\<close>

definition example_models_payload :: json where
  "example_models_payload =
     JObj [(''models'',
            JObj [(''alpha'', JObj [(''quotaInfo'',
                     JObj [(''remainingFraction'', JNum (Fin (3 / 8))),
                           (''resetTime'', JStr ''2026-01-01T00:00:00Z'')])]),
                  (''beta'', JObj [(''quotaInfo'', JObj [(''remainingFraction'', JStr ''n/a'')])])])]"

definition example_buckets_payload :: json where
  "example_buckets_payload =
     JObj [(''buckets'',
            JArr [JObj [(''modelId'', JStr ''alpha''), (''remainingFraction'', JNum (Fin (5 / 16)))],
                  JNull,
                  JObj [(''tokenType'', JStr ''REQUESTS'')]])]"

definition null_entry_payload :: json where
  "null_entry_payload = JObj [(''models'', JObj [(''alpha'', JNull)])]"

definition null_quotaInfo_payload :: json where
  "null_quotaInfo_payload = JObj [(''models'', JObj [(''alpha'', JObj [(''quotaInfo'', JNull)])])]"

text \<open>A network whose token refresh succeeds and whose two fetches settle as given.\<close>

definition example_network :: "string + json \<Rightarrow> string + json \<Rightarrow> network" where
  "example_network ag gc =
     \<lparr>refreshAccessToken = (\<lambda>t. Inr ''access-token''),
      fetchAntigravityModels = (\<lambda>t p. ag),
      fetchGeminiCliQuota = (\<lambda>t p. gc)\<rparr>"

definition example_account :: "string \<Rightarrow> AntigravityAccount" where
  "example_account e =
     \<lparr>email = Some e, refreshToken = Some ''refresh-token'', projectId = None, enabled = None\<rparr>"

definition example_models_payload2 :: json where
  "example_models_payload2 =
     JObj [(''models'',
            JObj [(''alpha'', JObj [(''quotaInfo'',
                     JObj [(''remainingFraction'', JNum (Fin (11 / 16)))])])])]"

definition disabled_account :: AntigravityAccount where
  "disabled_account =
     \<lparr>email = Some [], refreshToken = Some ''refresh-token'', projectId = None,
      enabled = Some False\<rparr>"

text \<open>
  Three accounts, the second disabled and without an email. The first account's two
  fetches succeed; the third account's bucket fetch times out.
\<close>

definition example_file :: accounts_file where
  "example_file =
     FileAccounts [example_account ''a@example.com'', disabled_account,
                   example_account ''b@example.com'']"

definition example_nets :: "nat \<Rightarrow> network" where
  "example_nets i =
     (if i = 0 then example_network (Inr example_models_payload) (Inr example_buckets_payload)
      else example_network (Inr example_models_payload2) (Inl ''Request timed out''))"

definition example_results :: "AccountQuotaResult list" where
  "example_results =
     [\<lparr>account_index = 0, result_email = ''a@example.com'', result_enabled = True,
        result_projectId = None,
        antigravity_models =
          [\<lparr>model = ''alpha'', remaining_fraction = Some (Fin (3 / 8)),
             remaining_pct = Some (Fin 38), reset_time = Some ''2026-01-01T00:00:00Z''\<rparr>,
           \<lparr>model = ''beta'', remaining_fraction = None, remaining_pct = None,
             reset_time = None\<rparr>],
        gemini_cli_quota =
          [\<lparr>bucket_model = ''alpha'', token_type = None,
             bucket_remaining_fraction = Some (Fin (5 / 16)),
             bucket_remaining_pct = Some (Fin 31), remaining_amount = None,
             bucket_reset_time = None\<rparr>,
           \<lparr>bucket_model = ''unknown'', token_type = Some ''REQUESTS'',
             bucket_remaining_fraction = None, bucket_remaining_pct = None,
             remaining_amount = None, bucket_reset_time = None\<rparr>],
        errors = []\<rparr>,
      \<lparr>account_index = 1, result_email = ''account_1'', result_enabled = False,
        result_projectId = None, antigravity_models = [], gemini_cli_quota = [],
        errors = [''Account is disabled'']\<rparr>,
      \<lparr>account_index = 2, result_email = ''b@example.com'', result_enabled = True,
        result_projectId = None,
        antigravity_models =
          [\<lparr>model = ''alpha'', remaining_fraction = Some (Fin (11 / 16)),
             remaining_pct = Some (Fin 69), reset_time = None\<rparr>],
        gemini_cli_quota = [],
        errors = [''Gemini CLI quota: Request timed out'']\<rparr>]"

definition example_summary :: "(string \<times> summary_entry) list" where
  "example_summary =
     [(''alpha'', \<lparr>best_remaining_pct = Fin 69, accounts_available = 2\<rparr>),
      (''beta'', \<lparr>best_remaining_pct = Fin (- 1), accounts_available = 0\<rparr>),
      (''gemini-cli:alpha'', \<lparr>best_remaining_pct = Fin 31, accounts_available = 1\<rparr>),
      (''gemini-cli:unknown'', \<lparr>best_remaining_pct = Fin (- 1), accounts_available = 0\<rparr>)]"

text \<open>
  A runtime that parses one request line, and handlers whose tools are all unavailable.
\<close>

definition ping_request :: json where
  "ping_request = JObj [(''jsonrpc'', JStr ''2.0''), (''id'', JNum (Fin 1)), (''method'', JStr ''ping'')]"

definition example_runtime :: runtime where
  \<open>example_runtime =
     \<lparr>trim = (\<lambda>s. s),
      JSON_parse = (\<lambda>s. if s = ''{"jsonrpc":"2.0","id":1,"method":"ping"}''
                         then Some ping_request else None),
      JSON_stringify = (\<lambda>v. ''{}''),
      template = (\<lambda>v. ''undefined''),
      typeErrorMessage = (\<lambda>v. ''Cannot read properties of undefined'')\<rparr>\<close>

definition example_handlers :: tool_handlers where
  "example_handlers =
     \<lparr>run_getFullUsage = (\<lambda>h. Inl ''unavailable''),
      run_getQuota = Inl ''unavailable'',
      run_getModelUsage = (\<lambda>h. Inl ''unavailable''),
      run_getToolUsage = (\<lambda>h. Inl ''unavailable''),
      run_getAntigravityQuota = Inl ''unavailable'',
      run_getAntigravityAccountQuota = (\<lambda>a. Inl ''unavailable'')\<rparr>"

text \<open>The loop after the request line, then after the close signal, then after the dispatch settled.\<close>

definition after_line :: transport where
  \<open>after_line = on_line example_runtime ''{"jsonrpc":"2.0","id":1,"method":"ping"}'' initial\<close>

definition after_close :: transport where
  "after_close = on_close after_line"

definition after_settle :: transport where
  "after_settle = on_settle example_runtime example_handlers 0 after_close"

text \<open>A request whose id is null, a notification, and a usage client that is down.\<close>

definition null_id_ping :: json where
  "null_id_ping = JObj [(''jsonrpc'', JStr ''2.0''), (''id'', JNull), (''method'', JStr ''ping'')]"

text \<open>A request whose id is the value of the overflowing literal \<^verbatim>\<open>1e999\<close>.\<close>

definition overflowing_id_ping :: json where
  "overflowing_id_ping =
     JObj [(''jsonrpc'', JStr ''2.0''), (''id'', JNum PosInf), (''method'', JStr ''ping'')]"

definition example_notification :: json where
  "example_notification = JObj [(''jsonrpc'', JStr ''2.0''), (''method'', JStr ''no/such/method'')]"

definition example_api :: zai_api where
  "example_api =
     \<lparr>fetchQuota = Inl ''Request timed out'',
      fetchModelUsage = (\<lambda>h. Inl ''Request timed out''),
      fetchToolUsage = (\<lambda>h. Inl ''Request timed out'')\<rparr>"

text \<open>Lower-casing of the ASCII letters, enough for the example emails.\<close>

definition ascii_lower :: "string \<Rightarrow> string" where
  "ascii_lower =
     map (\<lambda>c. case map_of (zip ''ABCDEFGHIJKLMNOPQRSTUVWXYZ'' ''abcdefghijklmnopqrstuvwxyz'') c of
                Some l \<Rightarrow> l
              | None \<Rightarrow> c)"

text \<open>
  A model payload whose one model bears the name of an inherited member, at half of
  its quota.
\<close>

definition constructor_payload :: json where
  "constructor_payload =
     JObj [(''models'',
            JObj [(''constructor'',
                   JObj [(''quotaInfo'', JObj [(''remainingFraction'', JNum (Fin (1 / 2)))])])])]"

section \<open>Properties of the payload parsers\<close>

lemma createAntigravityModelEntry_mirror:
  "createAntigravityModelEntry dbl name info = Inr e \<Longrightarrow>
     remaining_pct e = map_option (\<lambda>f. Math_round (times100 dbl f)) (remaining_fraction e)"
  by (auto simp: createAntigravityModelEntry_def Let_def
           split: sum.splits option.splits if_splits)

lemma models_loop_mirror:
  "models_loop dbl kvs acc = Inr ms \<Longrightarrow>
   \<forall>m\<in>set acc. remaining_pct m = map_option (\<lambda>f. Math_round (times100 dbl f)) (remaining_fraction m) \<Longrightarrow>
   \<forall>m\<in>set ms. remaining_pct m = map_option (\<lambda>f. Math_round (times100 dbl f)) (remaining_fraction m)"
proof (induction kvs arbitrary: acc)
  case Nil
  then show ?case by simp
next
  case (Cons kv kvs)
  obtain name info where kv: "kv = (name, info)" by (cases kv)
  from Cons.prems(1) kv obtain e where
    e: "createAntigravityModelEntry dbl name info = Inr e"
    and rest: "models_loop dbl kvs (acc @ [e]) = Inr ms"
    by (auto split: sum.splits)
  have "\<forall>m\<in>set (acc @ [e]). remaining_pct m = map_option (\<lambda>f. Math_round (times100 dbl f)) (remaining_fraction m)"
    using Cons.prems(2) createAntigravityModelEntry_mirror[OF e] by auto
  from Cons.IH[OF rest this] show ?case .
qed

lemma parseAntigravityModels_mirror:
  "parseAntigravityModels dbl data = Inr ms \<Longrightarrow>
   \<forall>m\<in>set ms. remaining_pct m = map_option (\<lambda>f. Math_round (times100 dbl f)) (remaining_fraction m)"
  unfolding parseAntigravityModels_def
  by (auto split: if_splits sum.splits option.splits dest!: models_loop_mirror)

lemma bucket_entry_mirror:
  "bucket_entry dbl b = Some e \<Longrightarrow>
   bucket_remaining_pct e = map_option (\<lambda>f. Math_round (times100 dbl f)) (bucket_remaining_fraction e)"
  by (auto simp: bucket_entry_def split: if_splits option.splits)

lemma in_map_filterD: "b \<in> set (List.map_filter f xs) \<Longrightarrow> \<exists>x\<in>set xs. f x = Some b"
  by (auto simp: List.map_filter_def)

lemma parseGeminiCliQuota_mirror:
  "b \<in> set (parseGeminiCliQuota dbl data) \<Longrightarrow>
     bucket_remaining_pct b = map_option (\<lambda>f. Math_round (times100 dbl f)) (bucket_remaining_fraction b)"
  unfolding parseGeminiCliQuota_def
  by (auto dest!: in_map_filterD bucket_entry_mirror split: if_splits)


lemma createAntigravityModelEntry_fraction:
  "createAntigravityModelEntry dbl name info = Inr e \<Longrightarrow>
     remaining_fraction e =
       (case field info ''quotaInfo'' of
          None \<Rightarrow> None
        | Some q \<Rightarrow> if typeof_object (Some q) then as_number (field q ''remainingFraction'')
                    else None)"
  by (auto simp: createAntigravityModelEntry_def Let_def field_def
           split: sum.splits option.splits if_splits)

lemma bucket_entry_fraction:
  "bucket_entry dbl b = Some e \<Longrightarrow>
     bucket_remaining_fraction e = as_number (field b ''remainingFraction'')"
  by (auto simp: bucket_entry_def split: if_splits)

text \<open>
  The percentage the parsers compute is the rounded percentage of the specification,
  and a fraction has one rounded percentage only.
\<close>

lemma percentage_of_Math_round: "percentage_of dbl f (Math_round (times100 dbl f))"
proof (cases f)
  case (Fin q)
  show ?thesis
  proof (cases "dbl (q * 100)")
    case inner: (Fin x)
    have "of_int \<lfloor>x + 1 / 2\<rfloor> - 1 / 2 \<le> x" "x < of_int \<lfloor>x + 1 / 2\<rfloor> + 1 / 2"
      by linarith+
    then show ?thesis
      by (simp add: percentage_of_def Fin inner)
  qed (simp_all add: percentage_of_def Fin)
qed (simp_all add: percentage_of_def)

lemma percentage_of_unique:
  assumes "percentage_of dbl f p" "percentage_of dbl f p'"
  shows "p = p'"
proof (cases f)
  case (Fin q)
  show ?thesis
  proof (cases "dbl (q * 100)")
    case inner: (Fin x)
    from assms Fin inner obtain y y' where
      y: "p = Fin y" "of_int \<lfloor>y\<rfloor> = y" "y - 1 / 2 \<le> x" "x < y + 1 / 2"
      and y': "p' = Fin y'" "of_int \<lfloor>y'\<rfloor> = y'" "y' - 1 / 2 \<le> x" "x < y' + 1 / 2"
      by (cases p; cases p') (auto simp: percentage_of_def)
    have "(of_int \<lfloor>y\<rfloor> :: rat) < of_int \<lfloor>y'\<rfloor> + 1" "(of_int \<lfloor>y'\<rfloor> :: rat) < of_int \<lfloor>y\<rfloor> + 1"
      using y y' by linarith+
    then have "\<lfloor>y\<rfloor> < \<lfloor>y'\<rfloor> + 1" "\<lfloor>y'\<rfloor> < \<lfloor>y\<rfloor> + 1"
      by (metis of_int_1 of_int_add of_int_less_iff)+
    then have "\<lfloor>y\<rfloor> = \<lfloor>y'\<rfloor>" by linarith
    with y y' show ?thesis by metis
  qed (use assms Fin in \<open>simp_all add: percentage_of_def\<close>)
qed (use assms in \<open>simp_all add: percentage_of_def\<close>)

lemma mirrored_percentage:
  "pct = map_option (\<lambda>f. Math_round (times100 dbl f)) fraction \<Longrightarrow>
     (case fraction of
        None \<Rightarrow> pct = None
      | Some f \<Rightarrow> (\<exists>p. pct = Some p \<and> percentage_of dbl f p))"
  by (cases fraction) (simp_all add: percentage_of_Math_round)

text \<open>
  Claim C7. In every model entry and every bucket entry the parsers produce, the
  percentage is null exactly when the entry's fraction is null, and otherwise it is the
  rounded percentage of that fraction: the integer nearest to the double product of
  the fraction and 100, a half going up (the product itself when it is no finite
  number). The fraction is the number found in the payload, or null when the payload
  holds no number there.
\<close>

theorem remaining_pct_mirrors_fraction:
  "(\<forall>ms. parseAntigravityModels dbl data = Inr ms \<longrightarrow>
      (\<forall>m\<in>set ms.
          case remaining_fraction m of
            None \<Rightarrow> remaining_pct m = None
          | Some f \<Rightarrow> (\<exists>p. remaining_pct m = Some p \<and> percentage_of dbl f p)))
   \<and> (\<forall>b\<in>set (parseGeminiCliQuota dbl data).
          case bucket_remaining_fraction b of
            None \<Rightarrow> bucket_remaining_pct b = None
          | Some f \<Rightarrow> (\<exists>p. bucket_remaining_pct b = Some p \<and> percentage_of dbl f p))
   \<and> (\<forall>e. createAntigravityModelEntry dbl name info = Inr e \<longrightarrow>
        remaining_fraction e =
          (case field info ''quotaInfo'' of
             None \<Rightarrow> None
           | Some q \<Rightarrow> if typeof_object (Some q) then as_number (field q ''remainingFraction'')
                       else None))
   \<and> (\<forall>e. bucket_entry dbl b = Some e \<longrightarrow>
        bucket_remaining_fraction e = as_number (field b ''remainingFraction''))"
proof (intro conjI allI impI ballI)
  fix ms m
  assume "parseAntigravityModels dbl data = Inr ms" "m \<in> set ms"
  then have "remaining_pct m
      = map_option (\<lambda>f. Math_round (times100 dbl f)) (remaining_fraction m)"
    using parseAntigravityModels_mirror by blast
  then show "case remaining_fraction m of
            None \<Rightarrow> remaining_pct m = None
          | Some f \<Rightarrow> (\<exists>p. remaining_pct m = Some p \<and> percentage_of dbl f p)"
    by (rule mirrored_percentage)
next
  fix b'
  assume "b' \<in> set (parseGeminiCliQuota dbl data)"
  then have "bucket_remaining_pct b'
      = map_option (\<lambda>f. Math_round (times100 dbl f)) (bucket_remaining_fraction b')"
    by (rule parseGeminiCliQuota_mirror)
  then show "case bucket_remaining_fraction b' of
            None \<Rightarrow> bucket_remaining_pct b' = None
          | Some f \<Rightarrow> (\<exists>p. bucket_remaining_pct b' = Some p \<and> percentage_of dbl f p)"
    by (rule mirrored_percentage)
next
  fix e
  assume "createAntigravityModelEntry dbl name info = Inr e"
  then show "remaining_fraction e =
          (case field info ''quotaInfo'' of
             None \<Rightarrow> None
           | Some q \<Rightarrow> if typeof_object (Some q) then as_number (field q ''remainingFraction'')
                       else None)"
    by (rule createAntigravityModelEntry_fraction)
next
  fix e
  assume "bucket_entry dbl b = Some e"
  then show "bucket_remaining_fraction e = as_number (field b ''remainingFraction'')"
    by (rule bucket_entry_fraction)
qed

lemma example_models_parse:
  "parseAntigravityModels Fin example_models_payload =
     Inr [\<lparr>model = ''alpha'', remaining_fraction = Some (Fin (3 / 8)),
            remaining_pct = Some (Fin 38), reset_time = Some ''2026-01-01T00:00:00Z''\<rparr>,
          \<lparr>model = ''beta'', remaining_fraction = None, remaining_pct = None,
            reset_time = None\<rparr>]"
  by (simp add: parseAntigravityModels_def createAntigravityModelEntry_def
        example_models_payload_def floor_eq_iff)

lemma example_buckets_parse:
  "parseGeminiCliQuota Fin example_buckets_payload =
     [\<lparr>bucket_model = ''alpha'', token_type = None,
        bucket_remaining_fraction = Some (Fin (5 / 16)), bucket_remaining_pct = Some (Fin 31),
        remaining_amount = None, bucket_reset_time = None\<rparr>,
      \<lparr>bucket_model = ''unknown'', token_type = Some ''REQUESTS'',
        bucket_remaining_fraction = None, bucket_remaining_pct = None,
        remaining_amount = None, bucket_reset_time = None\<rparr>]"
  by (simp add: parseGeminiCliQuota_def bucket_entry_def field_def List.map_filter_def
        example_buckets_payload_def floor_eq_iff)

lemma example_models_fractions:
  "\<exists>m1 m2. parseAntigravityModels Fin example_models_payload = Inr [m1, m2]
     \<and> remaining_fraction m1 = Some (Fin (3 / 8)) \<and> remaining_fraction m2 = None"
  by (simp add: example_models_parse)

lemma example_buckets_fractions:
  "\<exists>b1 b2. parseGeminiCliQuota Fin example_buckets_payload = [b1, b2]
     \<and> bucket_remaining_fraction b1 = Some (Fin (5 / 16)) \<and> bucket_remaining_fraction b2 = None"
  by (simp add: example_buckets_parse)

lemma percentage_of_exact_product:
  "percentage_of Fin (Fin q) p \<Longrightarrow>
     \<exists>n::int. p = Fin (of_int n) \<and> of_int n - 1 / 2 \<le> q * 100 \<and> q * 100 < of_int n + 1 / 2"
  by (cases p) (auto simp: percentage_of_def intro: exI[of _ "\<lfloor>_\<rfloor>"])

text \<open>
  The theorem at two sample payloads, which yield entries of both kinds. The fractions
  0.375 and 0.3125 have the products 37.5 and 31.25: by the theorem the first entry's
  percentage can only be 38 and the first bucket's only 31.
\<close>

theorem remaining_pct_mirrors_fraction_witness:
  "(\<exists>ms. parseAntigravityModels Fin example_models_payload = Inr ms
      \<and> map remaining_fraction ms = [Some (Fin (3 / 8)), None]
      \<and> map remaining_pct ms = [Some (Fin 38), None])
   \<and> map bucket_remaining_fraction (parseGeminiCliQuota Fin example_buckets_payload)
       = [Some (Fin (5 / 16)), None]
   \<and> map bucket_remaining_pct (parseGeminiCliQuota Fin example_buckets_payload)
       = [Some (Fin 31), None]"
proof -
  note models_at = remaining_pct_mirrors_fraction[of Fin example_models_payload undefined undefined
      undefined]
  note buckets_at = remaining_pct_mirrors_fraction[of Fin example_buckets_payload undefined undefined
      undefined]
  from example_models_fractions obtain m1 m2 where
    ms: "parseAntigravityModels Fin example_models_payload = Inr [m1, m2]"
    and f1: "remaining_fraction m1 = Some (Fin (3 / 8))" and f2: "remaining_fraction m2 = None"
    by blast
  from models_at ms have
    "\<forall>m\<in>set [m1, m2]. case remaining_fraction m of
            None \<Rightarrow> remaining_pct m = None
          | Some f \<Rightarrow> (\<exists>p. remaining_pct m = Some p \<and> percentage_of Fin f p)"
    by blast
  with f1 f2 obtain p where p: "remaining_pct m1 = Some p" "percentage_of Fin (Fin (3 / 8)) p"
    and n2: "remaining_pct m2 = None"
    by auto
  from percentage_of_exact_product[OF p(2)] obtain n :: int where
    n: "p = Fin (of_int n)" "of_int n - 1 / 2 \<le> (3 / 8 :: rat) * 100"
       "(3 / 8 :: rat) * 100 < of_int n + 1 / 2"
    by blast
  from n(2,3) have "(of_int n :: rat) \<le> 38" "(37 :: rat) < of_int n" by simp_all
  then have "n \<le> 38" "37 < n" by simp_all
  then have "n = 38" by simp
  with n p have p1: "remaining_pct m1 = Some (Fin 38)" by simp
  from example_buckets_fractions obtain b1 b2 where
    bs: "parseGeminiCliQuota Fin example_buckets_payload = [b1, b2]"
    and g1: "bucket_remaining_fraction b1 = Some (Fin (5 / 16))"
    and g2: "bucket_remaining_fraction b2 = None"
    by blast
  from buckets_at bs have
    "\<forall>b\<in>set [b1, b2]. case bucket_remaining_fraction b of
            None \<Rightarrow> bucket_remaining_pct b = None
          | Some f \<Rightarrow> (\<exists>p. bucket_remaining_pct b = Some p \<and> percentage_of Fin f p)"
    by metis
  with g1 g2 obtain r where r: "bucket_remaining_pct b1 = Some r"
      "percentage_of Fin (Fin (5 / 16)) r"
    and o2: "bucket_remaining_pct b2 = None"
    by auto
  from percentage_of_exact_product[OF r(2)] obtain k :: int where
    k: "r = Fin (of_int k)" "of_int k - 1 / 2 \<le> (5 / 16 :: rat) * 100"
       "(5 / 16 :: rat) * 100 < of_int k + 1 / 2"
    by blast
  from k(2,3) have "(of_int k :: rat) \<le> 31 + 3 / 4" "(30 + 3 / 4 :: rat) < of_int k" by simp_all
  then have "(of_int k :: rat) < 32" "(30 :: rat) < of_int k" by linarith+
  then have "k < 32" "30 < k" by simp_all
  then have "k = 31" by simp
  with k r have r1: "bucket_remaining_pct b1 = Some (Fin 31)" by simp
  from ms f1 f2 p1 n2 bs g1 g2 r1 o2 show ?thesis by simp
qed


subsection \<open>Payloads on which the model parser returns\<close>

text \<open>
  The model parser returns normally on every payload in which no model's value is null
  and no model's \<^verbatim>\<open>quotaInfo\<close> is null.
\<close>

lemma get_prop_Inl: "get_prop v k = Inl e \<Longrightarrow> v = JNull"
  by (cases v) auto

lemma createAntigravityModelEntry_returns:
  "info \<noteq> JNull \<Longrightarrow> field info ''quotaInfo'' \<noteq> Some JNull \<Longrightarrow>
     \<exists>e. createAntigravityModelEntry dbl name info = Inr e"
  by (auto simp: createAntigravityModelEntry_def field_def Let_def
           dest: get_prop_Inl split: option.splits sum.splits)

lemma models_loop_returns:
  "\<forall>(k, v)\<in>set kvs. v \<noteq> JNull \<and> field v ''quotaInfo'' \<noteq> Some JNull \<Longrightarrow>
     \<exists>ms. models_loop dbl kvs acc = Inr ms"
proof (induction kvs arbitrary: acc)
  case Nil
  then show ?case by simp
next
  case (Cons kv kvs)
  obtain k v where kv: "kv = (k, v)" by (cases kv)
  with Cons.prems have "v \<noteq> JNull" "field v ''quotaInfo'' \<noteq> Some JNull" by auto
  from createAntigravityModelEntry_returns[OF this, of dbl k] obtain e where
    "createAntigravityModelEntry dbl k v = Inr e" by blast
  moreover from Cons.prems have "\<forall>(k, v)\<in>set kvs. v \<noteq> JNull \<and> field v ''quotaInfo'' \<noteq> Some JNull"
    by simp
  from Cons.IH[OF this, of "acc @ [e]"] obtain ms where
    "models_loop dbl kvs (acc @ [e]) = Inr ms" by blast
  ultimately show ?case by (simp add: kv)
qed

lemma parseAntigravityModels_returns:
  "\<forall>models. field data ''models'' = Some models \<longrightarrow>
      (\<forall>(k, v)\<in>set (Object_entries models). v \<noteq> JNull \<and> field v ''quotaInfo'' \<noteq> Some JNull) \<Longrightarrow>
     \<exists>ms. parseAntigravityModels dbl data = Inr ms"
proof (cases "field data ''models''")
  case None
  then show ?thesis
    by (cases data) (auto simp: parseAntigravityModels_def field_def)
next
  case (Some models)
  assume "\<forall>models. field data ''models'' = Some models \<longrightarrow>
      (\<forall>(k, v)\<in>set (Object_entries models). v \<noteq> JNull \<and> field v ''quotaInfo'' \<noteq> Some JNull)"
  with Some have "\<forall>(k, v)\<in>set (Object_entries models). v \<noteq> JNull \<and> field v ''quotaInfo'' \<noteq> Some JNull"
    by blast
  from models_loop_returns[OF this, of dbl "[]"] obtain ms where
    "models_loop dbl (Object_entries models) [] = Inr ms" by blast
  with Some show ?thesis
    by (cases data) (auto simp: parseAntigravityModels_def field_def)
qed


section \<open>Properties of the per-account pipeline\<close>

lemma settle_fetches_fields:
  "settle_fetches dbl r0 ag gc = Inr r \<Longrightarrow>
     account_index r = account_index r0 \<and> result_email r = result_email r0
     \<and> result_enabled r = result_enabled r0 \<and> result_projectId r = result_projectId r0"
  unfolding settle_fetches_def push_error_def
  by (cases ag; cases gc) (auto split: sum.splits)

lemma pipeline_fields:
  "snd (getAntigravityAccountQuota dbl net a i) = Inr r \<Longrightarrow>
     account_index r = i
     \<and> result_email r = (case truthy (email a) of Some e \<Rightarrow> e | None \<Rightarrow> ''account_'' @ nat_to_string i)
     \<and> result_enabled r = (enabled a \<noteq> Some False)
     \<and> result_projectId r = truthy (projectId a)"
  unfolding getAntigravityAccountQuota_def Let_def
  by (auto simp: push_error_def initial_result_def dest!: settle_fetches_fields
           split: if_splits option.splits sum.splits)

lemma Promise_all_Inr:
  "Promise_all ps = Inr vs \<Longrightarrow> length vs = length ps \<and> (\<forall>i<length ps. ps ! i = Inr (vs ! i))"
proof (induction ps arbitrary: vs)
  case Nil
  then show ?case by simp
next
  case (Cons p ps)
  then show ?case
    by (cases p) (auto split: sum.splits simp: nth_Cons split: nat.splits)
qed

lemma loadAccounts_FileAccounts:
  "loadAccounts (FileAccounts accs) = (if accs = [] then Inl NoAccountsConfigured else Inr accs)"
  by (simp add: loadAccounts_def map_idI)

lemma loadAccounts_Inr: "loadAccounts file = Inr accs \<Longrightarrow> file = FileAccounts accs \<and> accs \<noteq> []"
  by (cases "file") (auto simp: loadAccounts_def map_idI split: if_splits)

lemma getAll_Inr:
  assumes "getAntigravityQuotaAll dbl polluted nets file = Inr r"
  shows "\<exists>accs. loadAccounts file = Inr accs
     \<and> total_accounts r = length accs
     \<and> enabled_accounts r = length (filter (\<lambda>a. enabled a \<noteq> Some False) accs)
     \<and> length (accounts r) = length accs
     \<and> (\<exists>pass. build_summary polluted (accounts r) = Inr pass \<and> summary r = modelSummary pass)
     \<and> (\<forall>i<length accs. snd (getAntigravityAccountQuota dbl (nets i) (accs ! i) i) = Inr (accounts r ! i))"
proof -
  from assms obtain accs results pass where
    l: "loadAccounts file = Inr accs"
    and p: "Promise_all (map (\<lambda>(i, acc). snd (getAntigravityAccountQuota dbl (nets i) acc i)) (enumerate 0 accs)) = Inr results"
    and b: "build_summary polluted results = Inr pass"
    and r: "r = \<lparr>total_accounts = length accs,
                    enabled_accounts = length (filter (\<lambda>a. enabled a \<noteq> Some False) accs),
                    accounts = results,
                    summary = modelSummary pass\<rparr>"
    by (auto simp: getAntigravityQuotaAll_def split: sum.splits)
  from Promise_all_Inr[OF p] have len: "length results = length accs"
    and nth: "\<forall>i<length accs. snd (getAntigravityAccountQuota dbl (nets i) (accs ! i) i) = Inr (results ! i)"
    by (auto simp: nth_enumerate_eq)
  show ?thesis using l len nth r b by auto
qed

subsection \<open>The branches of the pipeline\<close>

lemma pipeline_disabled:
  "enabled a = Some False \<Longrightarrow>
     getAntigravityAccountQuota dbl net a i
       = ([], Inr (push_error ''Account is disabled'' (initial_result a i)))"
  by (simp add: getAntigravityAccountQuota_def initial_result_def)

lemma pipeline_no_token:
  "enabled a \<noteq> Some False \<Longrightarrow> truthy (refreshToken a) = None \<Longrightarrow>
     getAntigravityAccountQuota dbl net a i
       = ([], Inr (push_error ''No refresh token stored for this account'' (initial_result a i)))"
  by (simp add: getAntigravityAccountQuota_def initial_result_def)

lemma pipeline_refresh_failed:
  "enabled a \<noteq> Some False \<Longrightarrow> truthy (refreshToken a) = Some t \<Longrightarrow>
   refreshAccessToken net t = Inl message \<Longrightarrow>
     getAntigravityAccountQuota dbl net a i
       = ([RefreshAccessToken t],
          Inr (push_error (''Token refresh failed: '' @ message) (initial_result a i)))"
  by (simp add: getAntigravityAccountQuota_def initial_result_def)

lemma pipeline_fetches:
  "enabled a \<noteq> Some False \<Longrightarrow> truthy (refreshToken a) = Some t \<Longrightarrow>
   refreshAccessToken net t = Inr tok \<Longrightarrow>
     getAntigravityAccountQuota dbl net a i
       = ([RefreshAccessToken t, FetchAntigravityModels tok (projectId a),
           FetchGeminiCliQuota tok (projectId a)],
          settle_fetches dbl (initial_result a i)
            (fetchAntigravityModels net tok (projectId a))
            (fetchGeminiCliQuota net tok (projectId a)))"
  by (simp add: getAntigravityAccountQuota_def initial_result_def)

lemma settle_fetches_models_failed:
  "settle_fetches dbl r (Inl reason) gc =
     Inr (case gc of
            Inr v \<Rightarrow> (push_error (''Antigravity models: '' @ reason) r)
                       \<lparr>gemini_cli_quota := parseGeminiCliQuota dbl v\<rparr>
          | Inl reason' \<Rightarrow>
              push_error (''Gemini CLI quota: '' @ reason')
                (push_error (''Antigravity models: '' @ reason) r))"
  by (simp add: settle_fetches_def split: sum.splits)

lemma settle_fetches_models_parsed:
  "parseAntigravityModels dbl v = Inr ms \<Longrightarrow>
   settle_fetches dbl r (Inr v) gc =
     Inr (case gc of
            Inr w \<Rightarrow> r\<lparr>antigravity_models := ms, gemini_cli_quota := parseGeminiCliQuota dbl w\<rparr>
          | Inl reason \<Rightarrow>
              push_error (''Gemini CLI quota: '' @ reason) (r\<lparr>antigravity_models := ms\<rparr>))"
  by (simp add: settle_fetches_def split: sum.splits)

lemma settle_fetches_models_throw:
  "parseAntigravityModels dbl v = Inl e \<Longrightarrow> settle_fetches dbl r (Inr v) gc = Inl e"
  by (simp add: settle_fetches_def)

subsection \<open>Runs in which every model payload parses\<close>

text \<open>
  When the parser returns on every model payload the network delivers, each pipeline
  returns a result and \<^verbatim>\<open>Promise.all\<close> fulfils with one result per account, whichever
  refreshes and fetches fail.
\<close>

lemma settle_fetches_returns:
  "\<forall>v. ag = Inr v \<longrightarrow> (\<exists>ms. parseAntigravityModels dbl v = Inr ms) \<Longrightarrow>
     \<exists>r'. settle_fetches dbl r ag gc = Inr r'"
  by (cases ag) (auto simp: settle_fetches_models_failed settle_fetches_models_parsed)

lemma pipeline_returns:
  "\<forall>t p v. fetchAntigravityModels net t p = Inr v \<longrightarrow> (\<exists>ms. parseAntigravityModels dbl v = Inr ms) \<Longrightarrow>
     \<exists>r. snd (getAntigravityAccountQuota dbl net a i) = Inr r"
  by (auto simp: getAntigravityAccountQuota_def Let_def intro!: settle_fetches_returns
           split: option.splits sum.splits)

lemma Promise_all_map_Inr: "Promise_all (map Inr vs) = Inr vs"
  by (induction vs) auto

lemma pipelines_all_return:
  assumes "\<forall>i<length accs. \<forall>t p v. fetchAntigravityModels (nets i) t p = Inr v
            \<longrightarrow> (\<exists>ms. parseAntigravityModels dbl v = Inr ms)"
  shows "\<exists>results. Promise_all
            (map (\<lambda>(i, acc). snd (getAntigravityAccountQuota dbl (nets i) acc i))
               (enumerate 0 accs)) = Inr results
          \<and> length results = length accs"
proof -
  have "\<forall>i<length accs. \<exists>r. snd (getAntigravityAccountQuota dbl (nets i) (accs ! i) i) = Inr r"
    using assms pipeline_returns by blast
  then obtain f where
    f: "\<forall>i<length accs. snd (getAntigravityAccountQuota dbl (nets i) (accs ! i) i) = Inr (f i)"
    by metis
  have "map (\<lambda>(i, acc). snd (getAntigravityAccountQuota dbl (nets i) acc i)) (enumerate 0 accs)
          = map Inr (map f [0..<length accs])"
    using f by (auto intro!: nth_equalityI simp: nth_enumerate_eq)
  then show ?thesis
    using Promise_all_map_Inr[of "map f [0..<length accs]"] by simp
qed

subsection \<open>The example aggregation\<close>

lemma example_parse2:
  "parseAntigravityModels Fin example_models_payload2 =
     Inr [\<lparr>model = ''alpha'', remaining_fraction = Some (Fin (11 / 16)),
            remaining_pct = Some (Fin 69), reset_time = None\<rparr>]"
  by (simp add: parseAntigravityModels_def createAntigravityModelEntry_def
        example_models_payload2_def floor_eq_iff)

lemma example_pipeline0:
  "snd (getAntigravityAccountQuota Fin (example_nets 0) (example_account ''a@example.com'') 0)
     = Inr (example_results ! 0)"
  by (simp add: getAntigravityAccountQuota_def initial_result_def example_account_def
        example_nets_def example_network_def settle_fetches_def example_models_parse
        example_buckets_parse example_results_def)

lemma example_pipeline1:
  "snd (getAntigravityAccountQuota Fin (example_nets 1) disabled_account 1)
     = Inr (example_results ! 1)"
  by (simp add: getAntigravityAccountQuota_def initial_result_def disabled_account_def
        push_error_def example_results_def nat_to_string.simps digit_char_def)

lemma example_pipeline2:
  "snd (getAntigravityAccountQuota Fin (example_nets 2) (example_account ''b@example.com'') 2)
     = Inr (example_results ! 2)"
  by (simp add: getAntigravityAccountQuota_def initial_result_def example_account_def
        example_nets_def example_network_def settle_fetches_def example_parse2
        push_error_def example_results_def)

lemma example_build_summary:
  "build_summary False example_results
     = Inr \<lparr>modelSummary = example_summary, prototype_polluted = False\<rparr>"
  by (simp add: build_summary_def summarise_account_def summary_step_def key_in_def
        summary_get_def Object_prototype_members_def example_results_def example_summary_def)

lemma example_getAll:
  "getAntigravityQuotaAll Fin False example_nets example_file =
     Inr \<lparr>total_accounts = 3, enabled_accounts = 2, accounts = example_results,
          summary = example_summary\<rparr>"
proof -
  have "map (\<lambda>(i, acc). snd (getAntigravityAccountQuota Fin (example_nets i) acc i))
          (enumerate 0 [example_account ''a@example.com'', disabled_account,
                        example_account ''b@example.com''])
        = map Inr example_results"
    using example_pipeline0 example_pipeline1 example_pipeline2
    by (simp add: example_results_def eval_nat_numeral)
  moreover have "Promise_all (map Inr example_results) = Inr example_results"
    by (simp add: example_results_def)
  ultimately show ?thesis
    by (simp add: getAntigravityQuotaAll_def loadAccounts_def example_file_def
          example_build_summary example_account_def disabled_account_def)
qed

lemma null_entry_throws: "parseAntigravityModels dbl null_entry_payload = Inl TypeError"
  by (simp add: parseAntigravityModels_def createAntigravityModelEntry_def null_entry_payload_def)

lemma null_quotaInfo_throws: "parseAntigravityModels dbl null_quotaInfo_payload = Inl TypeError"
  by (simp add: parseAntigravityModels_def createAntigravityModelEntry_def
        null_quotaInfo_payload_def)

lemma example_pipeline_throws:
  "snd (getAntigravityAccountQuota dbl (example_network (Inr null_entry_payload) gc)
          (example_account e) i) = Inl TypeError"
  by (simp add: pipeline_fetches example_account_def example_network_def
        settle_fetches_models_throw null_entry_throws)

text \<open>
  Claim C4 says that both parsers return normally on every payload, null entries
  included. \<^verbatim>\<open>parseGeminiCliQuota\<close> does (it is a total function here, it tests each
  bucket for null). \<^verbatim>\<open>parseAntigravityModels\<close> does not: a model whose value is null,
  or whose \<^verbatim>\<open>quotaInfo\<close> is null, makes \<^verbatim>\<open>createAntigravityModelEntry\<close> read a property
  of null, and the TypeError leaves the per-account pipeline as a rejection.
\<close>

theorem parseAntigravityModels_throws_on_null:
  "parseAntigravityModels dbl (JObj [(''models'', JObj [(''alpha'', JNull)])]) = Inl TypeError
   \<and> parseAntigravityModels dbl
        (JObj [(''models'', JObj [(''alpha'', JObj [(''quotaInfo'', JNull)])])]) = Inl TypeError
   \<and> snd (getAntigravityAccountQuota dbl
             (example_network (Inr (JObj [(''models'', JObj [(''alpha'', JNull)])]))
                (Inr example_buckets_payload))
             (example_account ''a@example.com'') 0) = Inl TypeError"
  using null_entry_throws[of dbl] null_quotaInfo_throws[of dbl]
    example_pipeline_throws[of dbl "Inr example_buckets_payload" "''a@example.com''" 0]
  by (simp add: null_entry_payload_def null_quotaInfo_payload_def)

text \<open>The same with exact products for the rounding parameter.\<close>

theorem parseAntigravityModels_throws_on_null_witness:
  "parseAntigravityModels Fin (JObj [(''models'', JObj [(''alpha'', JNull)])]) = Inl TypeError
   \<and> parseAntigravityModels Fin
        (JObj [(''models'', JObj [(''alpha'', JObj [(''quotaInfo'', JNull)])])]) = Inl TypeError
   \<and> snd (getAntigravityAccountQuota Fin
             (example_network (Inr (JObj [(''models'', JObj [(''alpha'', JNull)])]))
                (Inr example_buckets_payload))
             (example_account ''a@example.com'') 0) = Inl TypeError"
  by (rule parseAntigravityModels_throws_on_null[of Fin])

text \<open>
  Claim C2 says that \<^verbatim>\<open>getAll\<close> yields one result per account whatever fails inside
  one account's pipeline. With two accounts, the first one's model fetch timing out and
  the second one's model payload holding a null entry, the second pipeline throws and
  the whole call is rejected: no result appears, the first account's included.
\<close>

theorem getAll_rejected_by_one_pipeline:
  "getAntigravityQuotaAll dbl polluted
     (\<lambda>i. if i = 0
           then example_network (Inl ''Request timed out'') (Inr example_buckets_payload)
           else example_network (Inr null_entry_payload) (Inr example_buckets_payload))
     (FileAccounts [example_account ''a@example.com'', example_account ''b@example.com''])
   = Inl TypeError"
proof -
  let ?net0 = "example_network (Inl ''Request timed out'') (Inr example_buckets_payload)"
  have first: "\<exists>r0. snd (getAntigravityAccountQuota dbl ?net0 (example_account ''a@example.com'') 0)
                  = Inr r0"
    by (simp add: pipeline_fetches example_account_def example_network_def
          settle_fetches_models_failed)
  have second: "snd (getAntigravityAccountQuota dbl
                  (example_network (Inr null_entry_payload) (Inr example_buckets_payload))
                  (example_account ''b@example.com'') (Suc 0)) = Inl TypeError"
    by (rule example_pipeline_throws)
  from first obtain r0 where
    "snd (getAntigravityAccountQuota dbl ?net0 (example_account ''a@example.com'') 0) = Inr r0"
    by blast
  with second show ?thesis
    by (simp add: getAntigravityQuotaAll_def loadAccounts_FileAccounts)
qed

text \<open>
  The same with exact products for the rounding parameter, in a process whose
  prototype is as the runtime made it.
\<close>

theorem getAll_rejected_by_one_pipeline_witness:
  "getAntigravityQuotaAll Fin False
     (\<lambda>i. if i = 0
           then example_network (Inl ''Request timed out'') (Inr example_buckets_payload)
           else example_network (Inr null_entry_payload) (Inr example_buckets_payload))
     (FileAccounts [example_account ''a@example.com'', example_account ''b@example.com''])
   = Inl TypeError"
  by (rule getAll_rejected_by_one_pipeline[of Fin False])

text \<open>
  Claim C3 says that, once a token is obtained, a failed bucket fetch is recorded as
  \<^verbatim>\<open>Gemini CLI quota: <message>\<close> while the model list is still populated when its
  fetch succeeded. When that successful fetch returned a payload with a null entry, the
  pipeline throws instead and records nothing.
\<close>

theorem pipeline_throws_instead_of_recording:
  "getAntigravityAccountQuota dbl
     (example_network (Inr null_entry_payload) (Inl ''Request timed out''))
     (example_account ''a@example.com'') 0
   = ([RefreshAccessToken ''refresh-token'', FetchAntigravityModels ''access-token'' None,
       FetchGeminiCliQuota ''access-token'' None],
      Inl TypeError)"
  by (simp add: pipeline_fetches example_account_def example_network_def
        settle_fetches_models_throw null_entry_throws)

text \<open>The same with exact products for the rounding parameter.\<close>

theorem pipeline_throws_instead_of_recording_witness:
  "getAntigravityAccountQuota Fin
     (example_network (Inr null_entry_payload) (Inl ''Request timed out''))
     (example_account ''a@example.com'') 0
   = ([RefreshAccessToken ''refresh-token'', FetchAntigravityModels ''access-token'' None,
       FetchGeminiCliQuota ''access-token'' None],
      Inl TypeError)"
  by (rule pipeline_throws_instead_of_recording[of Fin])

text \<open>
  Claim C10. When \<^verbatim>\<open>getAll\<close> succeeds over the loaded list, \<^verbatim>\<open>total_accounts\<close> is the
  length of the list, \<^verbatim>\<open>enabled_accounts\<close> counts the accounts whose \<^verbatim>\<open>enabled\<close> is not
  false, and the \<^verbatim>\<open>accounts\<close> array has one entry per account in load order: entry \<open>i\<close>
  is the pipeline's result for account \<open>i\<close>, carries \<^verbatim>\<open>account_index\<close> \<open>i\<close>, reports the
  email \<^verbatim>\<open>account_<i>\<close> when the account's email is absent or empty (its own email
  otherwise), and reports a missing \<^verbatim>\<open>projectId\<close> as null.
\<close>

theorem getAll_counts_order_and_defaults:
  assumes "getAntigravityQuotaAll dbl polluted nets file = Inr r"
  shows "\<exists>accs. loadAccounts file = Inr accs
     \<and> total_accounts r = length accs
     \<and> enabled_accounts r = length (filter (\<lambda>a. enabled a \<noteq> Some False) accs)
     \<and> length (accounts r) = length accs
     \<and> (\<forall>i<length accs.
          snd (getAntigravityAccountQuota dbl (nets i) (accs ! i) i) = Inr (accounts r ! i)
          \<and> account_index (accounts r ! i) = i
          \<and> (email (accs ! i) = None \<or> email (accs ! i) = Some []
               \<longrightarrow> result_email (accounts r ! i) = ''account_'' @ nat_to_string i)
          \<and> (\<forall>e. email (accs ! i) = Some e \<and> e \<noteq> []
               \<longrightarrow> result_email (accounts r ! i) = e)
          \<and> (projectId (accs ! i) = None \<longrightarrow> result_projectId (accounts r ! i) = None))"
proof -
  from getAll_Inr[OF assms] obtain accs where
    l: "loadAccounts file = Inr accs"
    and t: "total_accounts r = length accs"
    and e: "enabled_accounts r = length (filter (\<lambda>a. enabled a \<noteq> Some False) accs)"
    and n: "length (accounts r) = length accs"
    and p: "\<forall>i<length accs.
              snd (getAntigravityAccountQuota dbl (nets i) (accs ! i) i) = Inr (accounts r ! i)"
    by blast
  have "account_index (accounts r ! i) = i
        \<and> (email (accs ! i) = None \<or> email (accs ! i) = Some []
             \<longrightarrow> result_email (accounts r ! i) = ''account_'' @ nat_to_string i)
        \<and> (\<forall>e. email (accs ! i) = Some e \<and> e \<noteq> [] \<longrightarrow> result_email (accounts r ! i) = e)
        \<and> (projectId (accs ! i) = None \<longrightarrow> result_projectId (accounts r ! i) = None)"
    if "i < length accs" for i
    using pipeline_fields[of dbl "nets i" "accs ! i" i "accounts r ! i"] p that
    by auto
  with l t e n p show ?thesis by blast
qed

text \<open>The theorem at the example aggregation of three accounts.\<close>

theorem getAll_counts_order_and_defaults_witness:
  "\<exists>r. getAntigravityQuotaAll Fin False example_nets example_file = Inr r
     \<and> total_accounts r = 3 \<and> enabled_accounts r = 2
     \<and> map account_index (accounts r) = [0, 1, 2]
     \<and> map result_email (accounts r) = [''a@example.com'', ''account_1'', ''b@example.com'']"
  using getAll_counts_order_and_defaults[OF example_getAll] example_getAll
  by (simp add: example_results_def)

section \<open>Properties of the cross-account summary\<close>

subsection \<open>The iteration on the own properties\<close>

lemma map_of_append_new:
  "map_of (s @ [(k, e0)]) key =
     (case map_of s key of Some v \<Rightarrow> Some v | None \<Rightarrow> if key = k then Some e0 else None)"
  by (induction s) (auto split: option.splits)

lemma map_of_update_all:
  "map_of (map (\<lambda>(k', e). if k' = k then (k', f e) else (k', e)) s) key =
     (if key = k then map_option f (map_of s key) else map_of s key)"
  by (induction s) auto

lemma raise_entry_simps:
  "raise_entry None entry = entry"
  "raise_entry (Some p) entry =
     (if js_gt p (Fin 0)
      then entry\<lparr>accounts_available := accounts_available entry + 1,
                  best_remaining_pct := Math_max (best_remaining_pct entry) p\<rparr>
      else entry)"
  by (simp_all add: raise_entry_def)

lemma own_step_alt:
  "own_step k pct s =
     (let s1 = (if map_of s k = None then s @ [(k, fresh_entry)] else s)
      in if (\<exists>p. pct = Some p \<and> js_gt p (Fin 0))
         then map (\<lambda>(k', e). if k' = k then (k', raise_entry pct e) else (k', e)) s1
         else s1)"
  by (auto simp: own_step_def fresh_entry_def raise_entry_simps Let_def
           split: option.splits)

lemma raise_entry_unchanged:
  "\<not> (\<exists>p. pct = Some p \<and> js_gt p (Fin 0)) \<Longrightarrow> raise_entry pct e = e"
  by (cases pct) (auto simp: raise_entry_simps)

lemma map_of_own_step:
  "map_of (own_step k pct s) key =
     (if key = k
      then Some (raise_entry pct (case map_of s k of None \<Rightarrow> fresh_entry | Some e \<Rightarrow> e))
      else map_of s key)"
proof -
  define s1 where "s1 = (if map_of s k = None then s @ [(k, fresh_entry)] else s)"
  have s1: "map_of s1 key =
      (if key = k then Some (case map_of s k of None \<Rightarrow> fresh_entry | Some e \<Rightarrow> e)
       else map_of s key)"
    by (auto simp: s1_def map_add_def split: option.splits)
  show ?thesis
  proof (cases "\<exists>p. pct = Some p \<and> js_gt p (Fin 0)")
    case False
    have "own_step k pct s = s1"
      unfolding own_step_alt Let_def s1_def by (simp only: False if_False)
    then show ?thesis using s1 raise_entry_unchanged[OF False] by simp
  next
    case True
    have "own_step k pct s =
        map (\<lambda>(k', e). if k' = k then (k', raise_entry pct e) else (k', e)) s1"
      unfolding own_step_alt Let_def s1_def by (simp only: True if_True)
    then show ?thesis
      using s1 by (auto simp: map_of_update_all)
  qed
qed

lemma map_of_fold_own_step:
  "map_of (fold (\<lambda>(k, pct). own_step k pct) inputs s) key =
     (if keyed key inputs = [] then map_of s key
      else Some (fold raise_entry (keyed key inputs)
                   (case map_of s key of None \<Rightarrow> fresh_entry | Some e \<Rightarrow> e)))"
proof (induction inputs arbitrary: s)
  case Nil
  then show ?case by (simp add: keyed_def)
next
  case (Cons kp inputs)
  obtain k pct where kp: "kp = (k, pct)" by (cases kp)
  show ?case
    using Cons.IH[of "own_step k pct s"]
    by (simp add: kp keyed_def map_of_own_step)
qed

lemma fold_raise_entry:
  "fold raise_entry pcts e =
     \<lparr>best_remaining_pct =
        fold (\<lambda>p b. Math_max b p) (concat (map (\<lambda>pct. case pct of Some p \<Rightarrow> if js_gt p (Fin 0) then [p] else [] | None \<Rightarrow> []) pcts))
          (best_remaining_pct e),
      accounts_available = accounts_available e
        + length (concat (map (\<lambda>pct. case pct of Some p \<Rightarrow> if js_gt p (Fin 0) then [p] else [] | None \<Rightarrow> []) pcts))\<rparr>"
proof (induction pcts arbitrary: e)
  case Nil
  then show ?case by simp
next
  case (Cons pct pcts)
  show ?case
    by (cases pct) (simp_all add: Cons.IH raise_entry_simps)
qed

lemma available_keyed:
  "available key inputs =
     concat (map (\<lambda>pct. case pct of Some p \<Rightarrow> if js_gt p (Fin 0) then [p] else [] | None \<Rightarrow> [])
               (keyed key inputs))"
  by (induction inputs) (auto simp: available_def keyed_def split: option.splits)

lemma keyed_empty_iff: "keyed key inputs = [] \<longleftrightarrow> key \<notin> fst ` set inputs"
  by (auto simp: keyed_def filter_empty_conv)

lemma summary_inputs_append:
  "summary_inputs (rs @ rs') = summary_inputs rs @ summary_inputs rs'"
  by (simp add: summary_inputs_def)

lemma summary_inputs_filter:
  "summary_inputs (filter result_enabled results) = summary_inputs results"
  by (induction results) (auto simp: summary_inputs_def)

lemma available_positive: "p \<in> set (available key inputs) \<Longrightarrow> js_gt p (Fin 0)"
  by (auto simp: available_def split: option.splits if_splits)

lemma Math_max_cases:
  "a \<noteq> NaN \<Longrightarrow> b \<noteq> NaN \<Longrightarrow>
     Math_max a b \<noteq> NaN \<and> (Math_max a b = a \<or> Math_max a b = b)
     \<and> \<not> js_gt a (Math_max a b) \<and> \<not> js_gt b (Math_max a b)"
  by (cases a; cases b) auto

lemma not_js_gt_trans:
  "b \<noteq> NaN \<Longrightarrow> \<not> js_gt a b \<Longrightarrow> \<not> js_gt b c \<Longrightarrow> \<not> js_gt a c"
  by (cases a; cases b; cases c) auto

lemma fold_Math_max:
  "b \<noteq> NaN \<Longrightarrow> \<forall>p\<in>set ps. p \<noteq> NaN \<Longrightarrow>
     fold (\<lambda>p b. Math_max b p) ps b \<noteq> NaN
     \<and> (fold (\<lambda>p b. Math_max b p) ps b = b \<or> fold (\<lambda>p b. Math_max b p) ps b \<in> set ps)
     \<and> \<not> js_gt b (fold (\<lambda>p b. Math_max b p) ps b)
     \<and> (\<forall>p\<in>set ps. \<not> js_gt p (fold (\<lambda>p b. Math_max b p) ps b))"
proof (induction ps arbitrary: b)
  case Nil
  then show ?case by (cases b) auto
next
  case (Cons p ps)
  let ?b' = "Math_max b p"
  let ?B = "fold (\<lambda>p b. Math_max b p) ps ?b'"
  have p: "p \<noteq> NaN" using Cons.prems by simp
  from Math_max_cases[OF Cons.prems(1) p] have
    b': "?b' \<noteq> NaN" "?b' = b \<or> ?b' = p" "\<not> js_gt b ?b'" "\<not> js_gt p ?b'"
    by auto
  from Cons.IH[OF b'(1)] Cons.prems(2) have
    B: "?B \<noteq> NaN" "?B = ?b' \<or> ?B \<in> set ps" "\<not> js_gt ?b' ?B" "\<forall>q\<in>set ps. \<not> js_gt q ?B"
    by auto
  have "\<not> js_gt b ?B" using not_js_gt_trans[OF b'(1) b'(3) B(3)] .
  moreover have "\<not> js_gt p ?B" using not_js_gt_trans[OF b'(1) b'(4) B(3)] .
  moreover have "?B = b \<or> ?B \<in> set (p # ps)" using b'(2) B(2) by auto
  ultimately show ?case using B by simp
qed

lemma best_of_available:
  assumes "\<forall>p\<in>set ps. js_gt p (Fin 0)"
  shows "(ps = [] \<longrightarrow> fold (\<lambda>p b. Math_max b p) ps (Fin (- 1)) = Fin (- 1))
     \<and> (ps \<noteq> [] \<longrightarrow> fold (\<lambda>p b. Math_max b p) ps (Fin (- 1)) \<in> set ps
          \<and> (\<forall>p\<in>set ps. \<not> js_gt p (fold (\<lambda>p b. Math_max b p) ps (Fin (- 1)))))"
proof -
  let ?B = "fold (\<lambda>p b. Math_max b p) ps (Fin (- 1))"
  have nn: "\<forall>p\<in>set ps. p \<noteq> NaN" using assms by auto
  from fold_Math_max[OF _ nn, of "Fin (- 1)"] have
    B: "?B = Fin (- 1) \<or> ?B \<in> set ps" "\<forall>p\<in>set ps. \<not> js_gt p ?B"
    by auto
  have "?B \<noteq> Fin (- 1)" if "ps \<noteq> []"
  proof
    assume eq: "?B = Fin (- 1)"
    from that obtain p where p: "p \<in> set ps" by (cases ps) auto
    with assms have "js_gt p (Fin 0)" by blast
    then have "js_gt p (Fin (- 1))" by (cases p) auto
    with B(2) p eq show False by auto
  qed
  with B show ?thesis by auto
qed

subsection \<open>Keys that name no inherited property\<close>

text \<open>
  On a key that names no inherited property both servers' iterations are the iteration
  on the own properties: they do not throw and leave the prototype as it is.
\<close>

lemma proto_is_member: "''__proto__'' \<in> set Object_prototype_members"
  by (simp add: Object_prototype_members_def)

lemma summary_get_plain:
  "plain_key (prototype_polluted st) key \<Longrightarrow>
     summary_get st key
       = (case map_of (modelSummary st) key of Some entry \<Rightarrow> Own entry | None \<Rightarrow> Absent)"
  using proto_is_member by (auto simp: summary_get_def plain_key_def split: option.splits)

lemma summary_step_plain:
  assumes "plain_key (prototype_polluted st) key"
  shows "summary_step key pct st
           = Inr (st\<lparr>modelSummary := own_step key pct (modelSummary st)\<rparr>)"
proof -
  have k: "key_in key st \<longleftrightarrow> map_of (modelSummary st) key \<noteq> None"
    using assms by (auto simp: key_in_def plain_key_def)
  show ?thesis
  proof (cases "map_of (modelSummary st) key")
    case None
    let ?st1 = "st\<lparr>modelSummary := modelSummary st
        @ [(key, \<lparr>best_remaining_pct = Fin (- 1), accounts_available = 0\<rparr>)]\<rparr>"
    have "plain_key (prototype_polluted ?st1) key" using assms by simp
    from summary_get_plain[OF this] None
    have g: "summary_get ?st1 key
        = Own \<lparr>best_remaining_pct = Fin (- 1), accounts_available = 0\<rparr>"
      by (simp add: map_add_def)
    show ?thesis
      using None k g by (cases pct) (simp_all add: summary_step_def own_step_def Let_def)
  next
    case (Some entry)
    from summary_get_plain[OF assms] Some have g: "summary_get st key = Own entry" by simp
    show ?thesis
      using Some k g by (cases pct) (simp_all add: summary_step_def own_step_def Let_def)
  qed
qed

lemma summary_step_single_file_plain:
  assumes "plain_key (prototype_polluted st) key"
  shows "summary_step_single_file key pct st
           = Inr (st\<lparr>modelSummary := own_step key pct (modelSummary st)\<rparr>)"
proof (cases "map_of (modelSummary st) key")
  case None
  let ?st1 = "st\<lparr>modelSummary := modelSummary st
      @ [(key, \<lparr>best_remaining_pct = Fin (- 1), accounts_available = 0\<rparr>)]\<rparr>"
  from summary_get_plain[OF assms] None have g0: "summary_get st key = Absent" by simp
  have "plain_key (prototype_polluted ?st1) key" using assms by simp
  from summary_get_plain[OF this] None
  have g: "summary_get ?st1 key
      = Own \<lparr>best_remaining_pct = Fin (- 1), accounts_available = 0\<rparr>"
    by (simp add: map_add_def)
  show ?thesis
    using None g0 g
    by (cases pct) (simp_all add: summary_step_single_file_def own_step_def Let_def)
next
  case (Some entry)
  from summary_get_plain[OF assms] Some have g: "summary_get st key = Own entry" by simp
  show ?thesis
    using Some g
    by (cases pct) (simp_all add: summary_step_single_file_def own_step_def Let_def)
qed

lemma for_each_plain:
  assumes step: "\<And>key pct st. plain_key (prototype_polluted st) key \<Longrightarrow>
      step key pct st = Inr (st\<lparr>modelSummary := own_step key pct (modelSummary st)\<rparr>)"
  shows "\<forall>x\<in>set xs. plain_key (prototype_polluted st) (k x) \<Longrightarrow>
     for_each (\<lambda>x. step (k x) (pc x)) xs st
       = Inr (st\<lparr>modelSummary := fold (\<lambda>x. own_step (k x) (pc x)) xs (modelSummary st)\<rparr>)"
proof (induction xs arbitrary: st)
  case Nil
  then show ?case by simp
next
  case (Cons x xs)
  let ?st1 = "st\<lparr>modelSummary := own_step (k x) (pc x) (modelSummary st)\<rparr>"
  from Cons.prems have "step (k x) (pc x) st = Inr ?st1" by (simp add: step)
  moreover from Cons.prems have "\<forall>y\<in>set xs. plain_key (prototype_polluted ?st1) (k y)" by simp
  from Cons.IH[OF this] have "for_each (\<lambda>x. step (k x) (pc x)) xs ?st1
      = Inr (?st1\<lparr>modelSummary := fold (\<lambda>x. own_step (k x) (pc x)) xs (modelSummary ?st1)\<rparr>)" .
  ultimately show ?case by simp
qed

lemma summarise_account_plain:
  assumes step: "\<And>key pct st. plain_key (prototype_polluted st) key \<Longrightarrow>
      step key pct st = Inr (st\<lparr>modelSummary := own_step key pct (modelSummary st)\<rparr>)"
    and plain: "\<forall>k\<in>fst ` set (summary_inputs [acct]). plain_key (prototype_polluted st) k"
  shows "summarise_account step acct st
     = Inr (st\<lparr>modelSummary :=
              fold (\<lambda>(k, pct). own_step k pct) (summary_inputs [acct]) (modelSummary st)\<rparr>)"
proof (cases "result_enabled acct")
  case False
  then show ?thesis by (simp add: summarise_account_def summary_inputs_def)
next
  case True
  let ?st1 = "st\<lparr>modelSummary := fold (\<lambda>m. own_step (model m) (remaining_pct m))
                 (antigravity_models acct) (modelSummary st)\<rparr>"
  from plain True have
    pm: "\<forall>m\<in>set (antigravity_models acct). plain_key (prototype_polluted st) (model m)"
    and pb: "\<forall>b\<in>set (gemini_cli_quota acct).
               plain_key (prototype_polluted ?st1) (''gemini-cli:'' @ bucket_model b)"
    by (auto simp: summary_inputs_def image_Un image_image)
  have 1: "for_each (\<lambda>m. step (model m) (remaining_pct m)) (antigravity_models acct) st
             = Inr ?st1"
    using for_each_plain[of step "antigravity_models acct" st model remaining_pct, OF step pm]
    by simp
  have 2: "for_each (\<lambda>b. step (''gemini-cli:'' @ bucket_model b) (bucket_remaining_pct b))
             (gemini_cli_quota acct) ?st1
        = Inr (?st1\<lparr>modelSummary :=
             fold (\<lambda>b. own_step (''gemini-cli:'' @ bucket_model b) (bucket_remaining_pct b))
               (gemini_cli_quota acct) (modelSummary ?st1)\<rparr>)"
    using for_each_plain[of step "gemini_cli_quota acct" ?st1
        "\<lambda>b. ''gemini-cli:'' @ bucket_model b" bucket_remaining_pct, OF step pb]
    by simp
  show ?thesis
    using True 1 2
    by (simp add: summarise_account_def summary_inputs_def fold_map comp_def)
qed

lemma pass_plain:
  assumes step: "\<And>key pct st. plain_key (prototype_polluted st) key \<Longrightarrow>
      step key pct st = Inr (st\<lparr>modelSummary := own_step key pct (modelSummary st)\<rparr>)"
  shows "\<forall>k\<in>fst ` set (summary_inputs results). plain_key (prototype_polluted st) k \<Longrightarrow>
     for_each (summarise_account step) results st
       = Inr (st\<lparr>modelSummary :=
                fold (\<lambda>(k, pct). own_step k pct) (summary_inputs results) (modelSummary st)\<rparr>)"
proof (induction results arbitrary: st)
  case Nil
  then show ?case by (simp add: summary_inputs_def)
next
  case (Cons acct results)
  have split: "summary_inputs (acct # results) = summary_inputs [acct] @ summary_inputs results"
    using summary_inputs_append[of "[acct]" results] by simp
  let ?st1 = "st\<lparr>modelSummary :=
      fold (\<lambda>(k, pct). own_step k pct) (summary_inputs [acct]) (modelSummary st)\<rparr>"
  from Cons.prems split have
    p1: "\<forall>k\<in>fst ` set (summary_inputs [acct]). plain_key (prototype_polluted st) k"
    and p2: "\<forall>k\<in>fst ` set (summary_inputs results). plain_key (prototype_polluted ?st1) k"
    by auto
  have "summarise_account step acct st = Inr ?st1"
    by (rule summarise_account_plain[OF step p1])
  moreover note Cons.IH[OF p2]
  ultimately show ?case by (simp add: split)
qed

lemma map_of_plain_summary:
  "map_of (fold (\<lambda>(k, pct). own_step k pct) (summary_inputs results) []) key =
     (if key \<notin> fst ` set (summary_inputs results) then None
      else Some \<lparr>best_remaining_pct =
                   fold (\<lambda>p b. Math_max b p) (available key (summary_inputs results)) (Fin (- 1)),
                 accounts_available = length (available key (summary_inputs results))\<rparr>)"
  by (simp add: map_of_fold_own_step fold_raise_entry available_keyed keyed_empty_iff
        fresh_entry_def)

text \<open>
  What the specification says of the summary holds of both servers whenever no model
  of an enabled account bears the name of an inherited property: the pass returns, and the
  summary has an entry for a key exactly when an entry of an enabled account presents
  that key, with \<^verbatim>\<open>accounts_available\<close> the number of those entries whose percentage is
  above zero and \<^verbatim>\<open>best_remaining_pct\<close> -1 when there is none and otherwise the greatest
  of their percentages. The results of disabled accounts do not enter.
\<close>

lemma summary_of_plain_keys:
  assumes plain: "\<forall>k\<in>fst ` set (summary_inputs results). plain_key polluted k"
  shows "\<exists>pass. build_summary polluted results = Inr pass
     \<and> build_summary_single_file polluted results = Inr pass
     \<and> build_summary polluted (filter result_enabled results) = Inr pass
     \<and> (key \<notin> fst ` set (summary_inputs results) \<longrightarrow> map_of (modelSummary pass) key = None)
     \<and> (key \<in> fst ` set (summary_inputs results) \<longrightarrow>
          (\<exists>entry. map_of (modelSummary pass) key = Some entry
             \<and> accounts_available entry = length (available key (summary_inputs results))
             \<and> (available key (summary_inputs results) = []
                  \<longrightarrow> best_remaining_pct entry = Fin (- 1))
             \<and> (available key (summary_inputs results) \<noteq> []
                  \<longrightarrow> best_remaining_pct entry \<in> set (available key (summary_inputs results))
                      \<and> (\<forall>p\<in>set (available key (summary_inputs results)).
                            \<not> js_gt p (best_remaining_pct entry)))))"
proof -
  let ?st = "\<lparr>modelSummary = [], prototype_polluted = polluted\<rparr>"
  let ?pass = "\<lparr>modelSummary = fold (\<lambda>(k, pct). own_step k pct) (summary_inputs results) [],
                prototype_polluted = polluted\<rparr>"
  have p: "\<forall>k\<in>fst ` set (summary_inputs results). plain_key (prototype_polluted ?st) k"
    using plain by simp
  have p': "\<forall>k\<in>fst ` set (summary_inputs (filter result_enabled results)).
              plain_key (prototype_polluted ?st) k"
    using plain by (simp add: summary_inputs_filter)
  have 1: "build_summary polluted results = Inr ?pass"
    using pass_plain[of summary_step results ?st, OF summary_step_plain p]
    by (simp add: build_summary_def)
  have 2: "build_summary_single_file polluted results = Inr ?pass"
    using pass_plain[of summary_step_single_file results ?st, OF summary_step_single_file_plain p]
    by (simp add: build_summary_single_file_def)
  have 3: "build_summary polluted (filter result_enabled results) = Inr ?pass"
    using pass_plain[of summary_step "filter result_enabled results" ?st,
        OF summary_step_plain p']
    by (simp add: build_summary_def summary_inputs_filter)
  let ?ps = "available key (summary_inputs results)"
  have pos: "\<forall>p\<in>set ?ps. js_gt p (Fin 0)" using available_positive by blast
  show ?thesis
    using 1 2 3 best_of_available[OF pos]
    by (simp add: map_of_plain_summary)
qed

lemma example_plain:
  "\<forall>k\<in>fst ` set (summary_inputs example_results). plain_key False k"
  by (simp add: summary_inputs_def example_results_def plain_key_def
        Object_prototype_members_def)

lemma constructor_parse:
  "parseAntigravityModels dbl constructor_payload =
     Inr [\<lparr>model = ''constructor'', remaining_fraction = Some (Fin (1 / 2)),
            remaining_pct = Some (Math_round (dbl 50)), reset_time = None\<rparr>]"
  by (simp add: parseAntigravityModels_def createAntigravityModelEntry_def
        constructor_payload_def)

lemma constructor_pipeline:
  "snd (getAntigravityAccountQuota dbl (example_network (Inr constructor_payload) (Inr (JObj [])))
          (example_account ''a@example.com'') 0)
     = Inr \<lparr>account_index = 0, result_email = ''a@example.com'', result_enabled = True,
            result_projectId = None,
            antigravity_models =
              [\<lparr>model = ''constructor'', remaining_fraction = Some (Fin (1 / 2)),
                 remaining_pct = Some (Math_round (dbl 50)), reset_time = None\<rparr>],
            gemini_cli_quota = [], errors = []\<rparr>"
  by (simp add: getAntigravityAccountQuota_def initial_result_def example_account_def
        example_network_def settle_fetches_def constructor_parse parseGeminiCliQuota_def)

lemma constructor_member: "''constructor'' \<in> set Object_prototype_members"
  by (simp add: Object_prototype_members_def)

lemma constructor_get:
  "summary_get \<lparr>modelSummary = [], prototype_polluted = polluted\<rparr> ''constructor''
     = Inherited_function"
  using constructor_member by (simp add: summary_get_def)

lemma constructor_in:
  "key_in ''constructor'' \<lparr>modelSummary = [], prototype_polluted = polluted\<rparr>"
  using constructor_member by (simp add: key_in_def)

lemma constructor_step:
  "summary_step ''constructor'' pct \<lparr>modelSummary = [], prototype_polluted = polluted\<rparr>
     = Inr \<lparr>modelSummary = [], prototype_polluted = polluted\<rparr>"
  by (cases pct) (simp_all add: summary_step_def Let_def constructor_get constructor_in)

lemma constructor_step_single_file:
  "summary_step_single_file ''constructor'' pct
       \<lparr>modelSummary = [], prototype_polluted = polluted\<rparr>
     = Inr \<lparr>modelSummary = [], prototype_polluted = polluted\<rparr>"
  by (cases pct) (simp_all add: summary_step_single_file_def Let_def constructor_get)

text \<open>
  The other inherited names behave likewise, except \<^verbatim>\<open>__proto__\<close>, whose value is the
  prototype: the counters written there are inherited from then on, and a later model
  named like a counter makes the modular server's pass throw, while the single-file
  server gives it an entry.
\<close>

lemma proto_step:
  "summary_step ''__proto__'' (Some (Fin 50)) \<lparr>modelSummary = [], prototype_polluted = False\<rparr>
     = Inr \<lparr>modelSummary = [], prototype_polluted = True\<rparr>"
  using proto_is_member by (simp add: summary_step_def Let_def summary_get_def key_in_def)

lemma counter_step_throws:
  "summary_step ''accounts_available'' (Some (Fin 50))
       \<lparr>modelSummary = [], prototype_polluted = True\<rparr>
     = Inl TypeError"
  by (simp add: summary_step_def Let_def summary_get_def key_in_def
        Object_prototype_members_def)

lemma counter_step_single_file:
  "summary_step_single_file ''accounts_available'' (Some (Fin 50))
       \<lparr>modelSummary = [], prototype_polluted = True\<rparr>
     = Inr \<lparr>modelSummary =
              [(''accounts_available'', \<lparr>best_remaining_pct = Fin 50, accounts_available = 1\<rparr>)],
            prototype_polluted = True\<rparr>"
  by (simp add: summary_step_single_file_def Let_def summary_get_def
        Object_prototype_members_def)

text \<open>
  Claim C1 says that the summary maps each key that the entries of the enabled
  accounts present to an entry with the count and the best percentage. For one enabled
  account whose two fetches succeed and whose one model is named \<^verbatim>\<open>constructor\<close>, at
  half of its quota, the call succeeds and the summary is empty: the name is \<^verbatim>\<open>in\<close> the
  empty summary object, as an inherited member, so no entry is created, and the
  counters are written onto the inherited function. The single-file server's pass over
  the same results ends with the empty summary as well.
\<close>

theorem summary_has_no_entry_for_inherited_name:
  "\<exists>r acct m.
     getAntigravityQuotaAll dbl polluted
         (\<lambda>i. example_network (Inr constructor_payload) (Inr (JObj [])))
         (FileAccounts [example_account ''a@example.com'']) = Inr r
     \<and> accounts r = [acct] \<and> result_enabled acct \<and> errors acct = []
     \<and> antigravity_models acct = [m] \<and> model m = ''constructor''
     \<and> remaining_fraction m = Some (Fin (1 / 2))
     \<and> remaining_pct m = Some (Math_round (dbl 50))
     \<and> summary r = []
     \<and> map_of (summary r) ''constructor'' = None
     \<and> build_summary_single_file polluted (accounts r)
         = Inr \<lparr>modelSummary = [], prototype_polluted = polluted\<rparr>"
  by (simp add: getAntigravityQuotaAll_def loadAccounts_FileAccounts constructor_pipeline
        build_summary_def build_summary_single_file_def summarise_account_def constructor_step
        constructor_step_single_file)

text \<open>
  The same with exact products for the rounding parameter, in a process whose
  prototype is as the runtime made it: the model's percentage is 50, and the summary
  has no entry for it.
\<close>

theorem summary_has_no_entry_for_inherited_name_witness:
  "\<exists>r acct m.
     getAntigravityQuotaAll Fin False
         (\<lambda>i. example_network (Inr constructor_payload) (Inr (JObj [])))
         (FileAccounts [example_account ''a@example.com'']) = Inr r
     \<and> accounts r = [acct] \<and> result_enabled acct
     \<and> antigravity_models acct = [m] \<and> model m = ''constructor''
     \<and> remaining_pct m = Some (Fin 50) \<and> js_gt (Fin 50) (Fin 0)
     \<and> map_of (summary r) ''constructor'' = None"
  using summary_has_no_entry_for_inherited_name[of Fin False]
  by (auto simp: floor_eq_iff)

section \<open>Properties of the transport loop\<close>

lemma tracker_inv_initial: "tracker_inv rt hs initial"
  by (simp add: tracker_inv_def initial_def)

lemma tracker_inv_on_line:
  assumes "tracker_inv rt hs s" "\<not> stdinClosed s" "\<not> exited s"
  shows "tracker_inv rt hs (on_line rt l s)"
proof (cases "trim rt l = []")
  case True
  then show ?thesis using assms by (simp add: on_line_def)
next
  case False
  show ?thesis
  proof (cases "JSON_parse rt (trim rt l)")
    case None
    then show ?thesis
      using assms False
      by (auto simp: on_line_def tracker_inv_def sendMessage_def)
  next
    case (Some msg)
    have fresh: "dispatched s \<notin> fst ` set (inflight s)"
      using assms(1) by (auto simp: tracker_inv_def)
    have "insert (dispatched s) (fst ` set (inflight s) \<union> fst ` set (finished s))
            = {..<Suc (dispatched s)}"
      using assms(1) by (auto simp: tracker_inv_def lessThan_Suc)
    then show ?thesis
      using assms False Some fresh
      by (auto simp: on_line_def tracker_inv_def)
  qed
qed

lemma length_filter_distinct_key:
  "distinct (map fst xs) \<Longrightarrow> map_of xs k = Some v \<Longrightarrow>
     length (filter (\<lambda>p. fst p \<noteq> k) xs) = length xs - 1
     \<and> fst ` set (filter (\<lambda>p. fst p \<noteq> k) xs) = fst ` set xs - {k}
     \<and> (k, v) \<in> set xs"
proof (induction xs)
  case Nil
  then show ?case by simp
next
  case (Cons x xs)
  show ?case
  proof (cases "fst x = k")
    case True
    then have "k \<notin> fst ` set xs" using Cons.prems(1) by auto
    then have "filter (\<lambda>p. fst p \<noteq> k) xs = xs"
      by (auto simp: filter_id_conv)
    then show ?thesis using True Cons.prems by (cases x) auto
  next
    case False
    then have m: "map_of xs k = Some v" using Cons.prems(2) by (cases x) auto
    from Cons.prems(1) have d: "distinct (map fst xs)" by simp
    from Cons.IH[OF d m] have "xs \<noteq> []" by auto
    with Cons.IH[OF d m] False show ?thesis by (cases xs) auto
  qed
qed

lemma tracker_inv_on_settle:
  assumes inv: "tracker_inv rt hs s" and ne: "\<not> exited s"
    and k: "map_of (inflight s) k \<noteq> None"
  shows "tracker_inv rt hs (on_settle rt hs k s)"
proof -
  from k obtain msg where msg: "map_of (inflight s) k = Some msg" by auto
  define s1 where "s1 = (case handleMessage rt hs msg of
                            Inr (Some response) \<Rightarrow> sendMessage response s
                          | _ \<Rightarrow> s)"
  define s2 where "s2 = s1\<lparr>pendingRequests := pendingRequests s1 - 1,
                             inflight := filter (\<lambda>p. fst p \<noteq> k) (inflight s1),
                             finished := finished s1 @ [(k, msg)]\<rparr>"
  have step: "on_settle rt hs k s = checkExit s2"
    by (simp add: on_settle_def msg s1_def s2_def Let_def)
  have same: "pendingRequests s1 = pendingRequests s" "inflight s1 = inflight s"
    "finished s1 = finished s" "dispatched s1 = dispatched s" "stdinClosed s1 = stdinClosed s"
    "exited s1 = exited s" "set (stdout s) \<subseteq> set (stdout s1)"
    by (auto simp: s1_def sendMessage_def split: sum.splits option.splits)
  have written: "\<forall>response. handleMessage rt hs msg = Inr (Some response)
                   \<longrightarrow> response \<in> set (stdout s1)"
    by (auto simp: s1_def sendMessage_def)
  from inv have d: "distinct (map fst (inflight s))" by (simp add: tracker_inv_def)
  note f = length_filter_distinct_key[OF d msg]
  have len: "inflight s \<noteq> []" using f by auto
  have inv2: "pendingRequests s2 = int (length (inflight s2))
     \<and> distinct (map fst (inflight s2))
     \<and> fst ` set (inflight s2) \<union> fst ` set (finished s2) = {..<dispatched s2}
     \<and> (\<forall>(k, msg)\<in>set (finished s2). \<forall>response.
            handleMessage rt hs msg = Inr (Some response) \<longrightarrow> response \<in> set (stdout s2))
     \<and> \<not> exited s2"
  proof (intro conjI)
    show "pendingRequests s2 = int (length (inflight s2))"
      using inv f len by (cases "inflight s") (auto simp: s2_def same tracker_inv_def)
    show "distinct (map fst (inflight s2))"
      using d by (simp add: s2_def same distinct_map_filter)
    show "fst ` set (inflight s2) \<union> fst ` set (finished s2) = {..<dispatched s2}"
    proof -
      have "k \<in> fst ` set (inflight s)" using f by force
      moreover have "fst ` set (inflight s) \<union> fst ` set (finished s) = {..<dispatched s}"
        using inv by (simp add: tracker_inv_def)
      ultimately show ?thesis using f by (auto simp: s2_def same)
    qed
    show "\<forall>(k, msg)\<in>set (finished s2). \<forall>response.
            handleMessage rt hs msg = Inr (Some response) \<longrightarrow> response \<in> set (stdout s2)"
    proof -
      have "\<forall>(k, m)\<in>set (finished s). \<forall>response.
              handleMessage rt hs m = Inr (Some response) \<longrightarrow> response \<in> set (stdout s1)"
        using inv same(7) by (fastforce simp: tracker_inv_def)
      then show ?thesis using written by (auto simp: s2_def same)
    qed
    show "\<not> exited s2" using ne by (simp add: s2_def same)
  qed
  show ?thesis
    unfolding step using inv2
    by (auto simp: checkExit_def tracker_inv_def)
qed

lemma tracker_inv_on_close:
  assumes "tracker_inv rt hs s" "\<not> stdinClosed s" "\<not> exited s"
  shows "tracker_inv rt hs (on_close s)"
  using assms by (auto simp: on_close_def checkExit_def tracker_inv_def)

lemma reachable_tracker_inv: "reachable rt hs s \<Longrightarrow> tracker_inv rt hs s"
proof (induction rule: reachable.induct)
  case start
  show ?case by (rule tracker_inv_initial)
next
  case (line s l)
  then show ?case by (simp add: tracker_inv_on_line)
next
  case (settle s k)
  then show ?case by (simp add: tracker_inv_on_settle)
next
  case (close s)
  then show ?case by (simp add: tracker_inv_on_close)
qed


text \<open>
  Claim C9. In every state the transport loop can reach, the process has exited exactly
  when the input stream has closed and the in-flight count is zero (the check runs at
  the end of every settled dispatch and of the close handler), and the count is the
  number of dispatches still pending. Hence, once the process has exited, no dispatch
  is pending, and every handler that was started has finished with its response, if it
  has one, among the lines written: closing the input while a call is in flight does
  not end the process before that call's response is written.
\<close>

theorem exit_exactly_when_closed_and_idle:
  assumes "reachable rt hs s"
  shows "(exited s \<longleftrightarrow> stdinClosed s \<and> pendingRequests s = 0)
     \<and> pendingRequests s = int (length (inflight s))
     \<and> (exited s \<longrightarrow>
          inflight s = []
          \<and> (\<forall>k<dispatched s. \<exists>msg. (k, msg) \<in> set (finished s)
                \<and> (\<forall>response. handleMessage rt hs msg = Inr (Some response)
                      \<longrightarrow> response \<in> set (stdout s))))"
proof -
  from reachable_tracker_inv[OF assms] have
    c: "pendingRequests s = int (length (inflight s))"
    and u: "fst ` set (inflight s) \<union> fst ` set (finished s) = {..<dispatched s}"
    and w: "\<forall>(k, msg)\<in>set (finished s). \<forall>response.
              handleMessage rt hs msg = Inr (Some response) \<longrightarrow> response \<in> set (stdout s)"
    and e: "exited s \<longleftrightarrow> stdinClosed s \<and> pendingRequests s = 0"
    by (auto simp: tracker_inv_def)
  have "inflight s = [] \<and> (\<forall>k<dispatched s. \<exists>msg. (k, msg) \<in> set (finished s)
                \<and> (\<forall>response. handleMessage rt hs msg = Inr (Some response)
                      \<longrightarrow> response \<in> set (stdout s)))" if "exited s"
  proof -
    from that e c have empty: "inflight s = []" by simp
    have "\<exists>msg. (k, msg) \<in> set (finished s)
                \<and> (\<forall>response. handleMessage rt hs msg = Inr (Some response)
                      \<longrightarrow> response \<in> set (stdout s))" if "k < dispatched s" for k
    proof -
      from that u empty have "k \<in> fst ` set (finished s)" by auto
      then obtain msg where "(k, msg) \<in> set (finished s)" by auto
      with w show ?thesis by blast
    qed
    with empty show ?thesis by blast
  qed
  with c e show ?thesis by blast
qed

lemma after_line_eq:
  "after_line = \<lparr>pendingRequests = 1, stdinClosed = False, exited = False, stdout = [],
                  inflight = [(0, ping_request)], finished = [], dispatched = 1\<rparr>"
  by (simp add: after_line_def on_line_def example_runtime_def initial_def)

lemma after_close_eq:
  "after_close = \<lparr>pendingRequests = 1, stdinClosed = True, exited = False, stdout = [],
                   inflight = [(0, ping_request)], finished = [], dispatched = 1\<rparr>"
  by (simp add: after_close_def after_line_eq on_close_def checkExit_def)

lemma handle_ping:
  "handleMessage rt hs ping_request = Inr (Some (makeResponse (JNum (Fin 1)) (JObj [])))"
  by (simp add: handleMessage_def ping_request_def field_def)

lemma after_settle_eq:
  "after_settle = \<lparr>pendingRequests = 0, stdinClosed = True, exited = True,
                    stdout = [makeResponse (JNum (Fin 1)) (JObj [])],
                    inflight = [], finished = [(0, ping_request)], dispatched = 1\<rparr>"
  by (simp add: after_settle_def after_close_eq on_settle_def handle_ping sendMessage_def
        checkExit_def)

lemma reachable_after_line: "reachable example_runtime example_handlers after_line"
  unfolding after_line_def
  by (rule reachable.line[OF reachable.start]) (simp_all add: initial_def)

lemma reachable_after_close: "reachable example_runtime example_handlers after_close"
  unfolding after_close_def
  by (rule reachable.close[OF reachable_after_line]) (simp_all add: after_line_eq)

lemma reachable_after_settle: "reachable example_runtime example_handlers after_settle"
  unfolding after_settle_def
  by (rule reachable.settle[OF reachable_after_close]) (simp_all add: after_close_eq)

text \<open>
  The theorem on a run: one \<^verbatim>\<open>ping\<close> request arrives, the input closes while it is in
  flight (no exit), the dispatch settles (response written, then exit).
\<close>

theorem exit_exactly_when_closed_and_idle_witness:
  "reachable example_runtime example_handlers after_close
   \<and> stdinClosed after_close \<and> pendingRequests after_close = 1 \<and> \<not> exited after_close
   \<and> reachable example_runtime example_handlers after_settle
   \<and> exited after_settle
   \<and> makeResponse (JNum (Fin 1)) (JObj []) \<in> set (stdout after_settle)"
proof -
  note open_call = exit_exactly_when_closed_and_idle[OF reachable_after_close]
  note done_call = exit_exactly_when_closed_and_idle[OF reachable_after_settle]
  have "\<not> exited after_close"
    using open_call by (simp add: after_close_eq)
  moreover have "exited after_settle"
    using done_call by (simp add: after_settle_eq)
  moreover from this done_call have
    "\<exists>msg. (0, msg) \<in> set (finished after_settle)
        \<and> (\<forall>response. handleMessage example_runtime example_handlers msg = Inr (Some response)
              \<longrightarrow> response \<in> set (stdout after_settle))"
    by (simp add: after_settle_eq)
  then have "makeResponse (JNum (Fin 1)) (JObj []) \<in> set (stdout after_settle)"
    using handle_ping by (auto simp: after_settle_eq)
  ultimately show ?thesis
    using reachable_after_close reachable_after_settle by (simp add: after_close_eq)
qed

section \<open>Properties of the dispatcher\<close>

lemma handleMessage_no_id:
  "\<forall>i. get_prop msg ''id'' \<noteq> Inr (Some i) \<Longrightarrow> handleMessage rt hs msg \<noteq> Inr (Some e)"
  by (auto simp: handleMessage_def split: sum.splits option.splits)

lemma get_prop_id_makeResponse: "get_prop (makeResponse i r) ''id'' = Inr (Some (JSON_written i))"
  by (simp add: makeResponse_def)

lemma get_prop_id_makeError: "get_prop (makeError i c m) ''id'' = Inr (Some (JSON_written i))"
  by (simp add: makeError_def)

lemma get_prop_id_tools_call:
  "get_prop (tools_call rt hs i params) ''id'' = Inr (Some (JSON_written i))"
  by (simp add: tools_call_def get_prop_id_makeResponse get_prop_id_makeError
           split: option.splits sum.splits)

lemma handleMessage_with_id:
  "get_prop msg ''id'' = Inr (Some i) \<Longrightarrow>
     \<exists>envelope. handleMessage rt hs msg = Inr (Some envelope)
        \<and> get_prop envelope ''id'' = Inr (Some (JSON_written i))"
  by (simp add: handleMessage_def Let_def get_prop_id_makeResponse get_prop_id_makeError
        get_prop_id_tools_call split: sum.splits)

text \<open>What is written for a value that holds finite numbers only is the value.\<close>

lemma JSON_written_finite: "finite_json v \<Longrightarrow> JSON_written v = v"
proof (induction v)
  case (JNum n)
  then show ?case by (cases n) simp_all
next
  case (JArr xs)
  then show ?case by (simp add: list_all_iff map_idI)
next
  case (JObj kvs)
  have "map (\<lambda>(k, v). (k, JSON_written v)) kvs = kvs"
  proof (rule map_idI)
    fix kv assume kv: "kv \<in> set kvs"
    obtain k v where eq: "kv = (k, v)" by (cases kv)
    from JObj.prems kv eq have "finite_json v" by (auto simp: list_all_iff)
    with JObj.IH[of kv v] kv eq show "(case kv of (k, v) \<Rightarrow> (k, JSON_written v)) = kv"
      by simp
  qed
  then show ?case by simp
qed simp_all

lemma JSON_written_not_finite: "\<not> Number_isFinite n \<Longrightarrow> JSON_written (JNum n) = JNull"
  by (cases n) simp_all

lemma stdout_checkExit: "stdout (checkExit s) = stdout s"
  by (simp add: checkExit_def)

lemma stdout_on_settle:
  "map_of (inflight s) k = Some msg \<Longrightarrow>
     stdout (on_settle rt hs k s) =
       stdout s @ (case handleMessage rt hs msg of Inr (Some e) \<Rightarrow> [e] | _ \<Rightarrow> [])"
  by (simp add: on_settle_def Let_def stdout_checkExit sendMessage_def
           split: sum.splits option.splits)

text \<open>
  Claim C8, amended. The response discipline is determined by the id field alone. A
  message that carries no id produces no envelope and no output line, whatever its
  method and whatever the handlers do. A message that carries an id, the id null
  included, produces exactly one envelope (the tool handlers are taken to settle, as
  every outbound call has a timeout), which is the one line written when its
  dispatch settles. The envelope's id is the request's id as \<^verbatim>\<open>JSON.stringify\<close> writes
  it: the request's id itself whenever that holds no number other than finite ones,
  and null for an id that is a number and not finite.
\<close>

theorem response_discipline:
  "((\<forall>i. get_prop msg ''id'' \<noteq> Inr (Some i)) \<longrightarrow>
       (\<forall>e. handleMessage rt hs msg \<noteq> Inr (Some e))
       \<and> (map_of (inflight s) k = Some msg \<longrightarrow> stdout (on_settle rt hs k s) = stdout s))
   \<and> (\<forall>i. get_prop msg ''id'' = Inr (Some i) \<longrightarrow>
         (\<exists>envelope i'. handleMessage rt hs msg = Inr (Some envelope)
            \<and> get_prop envelope ''id'' = Inr (Some i')
            \<and> (finite_json i \<longrightarrow> i' = i)
            \<and> (\<forall>n. i = JNum n \<and> \<not> Number_isFinite n \<longrightarrow> i' = JNull)
            \<and> i' = JSON_written i
            \<and> (map_of (inflight s) k = Some msg \<longrightarrow>
                  stdout (on_settle rt hs k s) = stdout s @ [envelope])))"
proof (intro conjI impI allI)
  assume n: "\<forall>i. get_prop msg ''id'' \<noteq> Inr (Some i)"
  show "handleMessage rt hs msg \<noteq> Inr (Some e)" for e
    using handleMessage_no_id[OF n] .
  show "stdout (on_settle rt hs k s) = stdout s" if "map_of (inflight s) k = Some msg"
    using stdout_on_settle[OF that, of rt hs] handleMessage_no_id[OF n, of rt hs]
    by (auto split: sum.splits option.splits)
next
  fix i assume i: "get_prop msg ''id'' = Inr (Some i)"
  from handleMessage_with_id[OF i, of rt hs] obtain envelope where
    e: "handleMessage rt hs msg = Inr (Some envelope)"
       "get_prop envelope ''id'' = Inr (Some (JSON_written i))"
    by blast
  have w: "stdout (on_settle rt hs k s) = stdout s @ [envelope]"
    if "map_of (inflight s) k = Some msg"
    using stdout_on_settle[OF that, of rt hs] e by simp
  have f: "finite_json i \<longrightarrow> JSON_written i = i"
    using JSON_written_finite by blast
  have g: "\<forall>n. i = JNum n \<and> \<not> Number_isFinite n \<longrightarrow> JSON_written i = JNull"
    using JSON_written_not_finite by blast
  from e w f g show "\<exists>envelope i'. handleMessage rt hs msg = Inr (Some envelope)
            \<and> get_prop envelope ''id'' = Inr (Some i')
            \<and> (finite_json i \<longrightarrow> i' = i)
            \<and> (\<forall>n. i = JNum n \<and> \<not> Number_isFinite n \<longrightarrow> i' = JNull)
            \<and> i' = JSON_written i
            \<and> (map_of (inflight s) k = Some msg \<longrightarrow>
                  stdout (on_settle rt hs k s) = stdout s @ [envelope])"
    by blast
qed

text \<open>
  Claim C8 as stated counts a null id as a notification. The dispatcher tests the id
  against \<^verbatim>\<open>undefined\<close> only, so a request whose id is null is answered, with the id
  null echoed.
\<close>

theorem null_id_is_answered:
  "handleMessage example_runtime example_handlers null_id_ping
     = Inr (Some (JObj [(''jsonrpc'', JStr ''2.0''), (''id'', JNull), (''result'', JObj [])]))"
  by (simp add: handleMessage_def null_id_ping_def field_def makeResponse_def)

text \<open>
  The theorem at a notification, at the \<^verbatim>\<open>ping\<close> request of the example run, whose id 1
  is echoed, and at a \<^verbatim>\<open>ping\<close> request whose id is the value of \<^verbatim>\<open>1e999\<close>, which is
  answered with the id null.
\<close>

theorem response_discipline_witness:
  "handleMessage example_runtime example_handlers example_notification = Inr None
   \<and> (\<exists>envelope. handleMessage example_runtime example_handlers ping_request
                    = Inr (Some envelope)
         \<and> get_prop envelope ''id'' = Inr (Some (JNum (Fin 1)))
         \<and> stdout after_settle = stdout after_close @ [envelope])
   \<and> (\<exists>envelope. handleMessage example_runtime example_handlers overflowing_id_ping
                    = Inr (Some envelope)
         \<and> get_prop envelope ''id'' = Inr (Some JNull))"
proof -
  have absent: "\<forall>i. get_prop example_notification ''id'' \<noteq> Inr (Some i)"
    by (simp add: example_notification_def)
  have present: "get_prop ping_request ''id'' = Inr (Some (JNum (Fin 1)))"
    by (simp add: ping_request_def)
  have overflowing: "get_prop overflowing_id_ping ''id'' = Inr (Some (JNum PosInf))"
    by (simp add: overflowing_id_ping_def)
  have pending: "map_of (inflight after_close) 0 = Some ping_request"
    by (simp add: after_close_def after_line_def on_close_def checkExit_def on_line_def
          example_runtime_def initial_def)
  from response_discipline[of example_notification example_runtime example_handlers
         after_close 0] absent
  have "\<forall>e. handleMessage example_runtime example_handlers example_notification \<noteq> Inr (Some e)"
    by blast
  moreover have "\<exists>r. handleMessage example_runtime example_handlers example_notification = Inr r"
    by (simp add: handleMessage_def example_notification_def)
  ultimately have first: "handleMessage example_runtime example_handlers example_notification = Inr None"
    by auto
  from response_discipline[of ping_request example_runtime example_handlers after_close 0]
    present pending
  obtain envelope i' where
    e: "handleMessage example_runtime example_handlers ping_request = Inr (Some envelope)"
    and i': "get_prop envelope ''id'' = Inr (Some i')"
    and f: "finite_json (JNum (Fin 1)) \<longrightarrow> i' = JNum (Fin 1)"
    and w: "stdout (on_settle example_runtime example_handlers 0 after_close)
              = stdout after_close @ [envelope]"
    by blast
  from f have "i' = JNum (Fin 1)" by simp
  with e i' w have second: "\<exists>envelope. handleMessage example_runtime example_handlers ping_request
                    = Inr (Some envelope)
         \<and> get_prop envelope ''id'' = Inr (Some (JNum (Fin 1)))
         \<and> stdout after_settle = stdout after_close @ [envelope]"
    by (auto simp: after_settle_def)
  from response_discipline[of overflowing_id_ping example_runtime example_handlers
         after_close 0] overflowing
  obtain envelope' j where
    e': "handleMessage example_runtime example_handlers overflowing_id_ping
           = Inr (Some envelope')"
    and j: "get_prop envelope' ''id'' = Inr (Some j)"
    and g: "\<forall>n. JNum PosInf = JNum n \<and> \<not> Number_isFinite n \<longrightarrow> j = JNull"
    by blast
  from g have "j = JNull" by simp
  with e' j have third: "\<exists>envelope. handleMessage example_runtime example_handlers
                    overflowing_id_ping = Inr (Some envelope)
         \<and> get_prop envelope ''id'' = Inr (Some JNull)"
    by blast
  from first second third show ?thesis by blast
qed

section \<open>Properties of the hours check\<close>

lemma validateHours_absent: "validateHours T None = Inr (Fin 24)"
  by (simp add: validateHours_def)

lemma validateHours_accepts:
  "Number_coerce T (Some h) = Inr (Fin q) \<Longrightarrow> 0 < q \<Longrightarrow> validateHours T (Some h) = Inr (Fin q)"
  by (simp add: validateHours_def)

lemma validateHours_rejects:
  "Number_coerce T (Some h) = Inr n \<Longrightarrow> \<forall>q. n = Fin q \<longrightarrow> q \<le> 0 \<Longrightarrow>
     validateHours T (Some h) = Inl (InvalidHours h)"
  by (cases n) (auto simp: validateHours_def)

lemma validateHours_number:
  "validateHours T (Some (JNum n)) =
     (case n of
        Fin q \<Rightarrow> if 0 < q then Inr (Fin q) else Inl (InvalidHours (JNum n))
      | _ \<Rightarrow> Inl (InvalidHours (JNum n)))"
  by (cases n) (auto simp: validateHours_def Number_coerce_def)

lemma validateHours_string:
  "validateHours T (Some (JStr s)) =
     (case T (JStr s) of
        Fin q \<Rightarrow> if 0 < q then Inr (Fin q) else Inl (InvalidHours (JStr s))
      | _ \<Rightarrow> Inl (InvalidHours (JStr s)))"
  by (cases "T (JStr s)") (auto simp: validateHours_def Number_coerce_def)

lemma validateHours_null_bool_object:
  "validateHours T (Some JNull) = Inl (InvalidHours JNull)"
  "validateHours T (Some (JBool False)) = Inl (InvalidHours (JBool False))"
  "validateHours T (Some (JBool True)) = Inr (Fin 1)"
  "map_of kvs ''toString'' = None \<Longrightarrow>
     validateHours T (Some (JObj kvs)) = Inl (InvalidHours (JObj kvs))"
  by (simp_all add: validateHours_def Number_coerce_def)

lemma validateHours_Inr:
  assumes "validateHours T hours = Inr n"
  shows "\<exists>q. n = Fin q \<and> 0 < q"
proof (cases hours)
  case None
  with assms show ?thesis by (auto simp: validateHours_def)
next
  case (Some h)
  show ?thesis
  proof (cases "Number_coerce T (Some h)")
    case (Inl e)
    with assms Some show ?thesis by (simp add: validateHours_def)
  next
    case (Inr parsed)
    show ?thesis
    proof (cases parsed)
      case (Fin q)
      with assms Some Inr have "n = Fin q \<and> 0 < q"
        by (simp add: validateHours_def split: if_splits)
      then show ?thesis by blast
    qed (use assms Some Inr in \<open>simp_all add: validateHours_def\<close>)
  qed
qed

lemma validateHours_again:
  "validateHours T hours = Inr n \<Longrightarrow> validateHours T (Some (JNum n)) = Inr n"
  using validateHours_Inr[of T hours n]
  by (auto simp: validateHours_def Number_coerce_def)

lemma handlers_rejected:
  "validateHours T hours = Inl e \<Longrightarrow>
     getFullUsage T api hours = ([], Inl e) \<and> getModelUsage T api hours = ([], Inl e)
     \<and> getToolUsage T api hours = ([], Inl e)"
  by (simp add: getFullUsage_def getModelUsage_def getToolUsage_def)

lemma handlers_accepted:
  "validateHours T hours = Inr n \<Longrightarrow>
     fst (getModelUsage T api hours) = [FetchModelUsage n]
     \<and> fst (getToolUsage T api hours) = [FetchToolUsage n]
     \<and> fst (getFullUsage T api hours) = [FetchQuota, FetchModelUsage n, FetchToolUsage n]"
  using validateHours_again[of T hours n]
  by (simp add: getFullUsage_def getModelUsage_def getToolUsage_def getQuota_def Let_def)

lemma single_file_relation:
  "Number_coerce T hours = Inr n \<Longrightarrow>
     validateHours_single_file T hours =
       Inr (case validateHours T hours of Inr m \<Rightarrow> m | Inl e \<Rightarrow> Fin 24)"
  by (cases hours; cases n)
     (auto simp: validateHours_def validateHours_single_file_def Number_coerce_def)

text \<open>
  \<^verbatim>\<open>Number\<close> throws on an object that has an own property \<^verbatim>\<open>toString\<close> (and on an array
  that holds one). Both checks then fail with the TypeError, which carries no value.
\<close>

lemma hours_conversion_throws:
  assumes "ToPrimitive_throws h"
  shows "validateHours T (Some h) = Inl TypeError
     \<and> validateHours_single_file T (Some h) = Inl TypeError"
  using assms
  by (cases h) (simp_all add: validateHours_def validateHours_single_file_def Number_coerce_def)

lemma hours_conversion_returns:
  "\<not> ToPrimitive_throws h \<Longrightarrow> \<exists>n. Number_coerce T (Some h) = Inr n"
  by (cases h) (simp_all add: Number_coerce_def)

text \<open>
  Claim C6, amended. It speaks of the values that \<^verbatim>\<open>Number\<close> converts, which are all
  values but the objects that have an own property \<^verbatim>\<open>toString\<close> and the arrays that hold
  one: on these \<^verbatim>\<open>Number\<close> throws. In the modular server an absent
  \<^verbatim>\<open>hours\<close> defaults to 24, a value that coerces to a finite number above zero is
  accepted as that number, and every other value fails with an error that carries the
  offending value: so for a number, for a string (which coerces to what the runtime
  reads in it), for null, false and an object, while true coerces to 1. When the check
  fails, \<^verbatim>\<open>get_usage\<close>, \<^verbatim>\<open>get_model_usage\<close> and \<^verbatim>\<open>get_tool_usage\<close> fail with that error and
  make no outbound call, and when it passes they call the client with the accepted
  number. In the single-file server no such value fails: its check returns the same
  number where the modular one accepts, and 24 where the modular one rejects.
\<close>

theorem hours_validation:
  "validateHours T None = Inr (Fin 24)
   \<and> (\<forall>q. Number_coerce T (Some h) = Inr (Fin q) \<and> 0 < q
         \<longrightarrow> validateHours T (Some h) = Inr (Fin q))
   \<and> (\<forall>n. Number_coerce T (Some h) = Inr n \<and> (\<forall>q. n = Fin q \<longrightarrow> q \<le> 0)
         \<longrightarrow> validateHours T (Some h) = Inl (InvalidHours h))
   \<and> (\<forall>q. validateHours T (Some (JNum (Fin q)))
            = (if 0 < q then Inr (Fin q) else Inl (InvalidHours (JNum (Fin q)))))
   \<and> validateHours T (Some (JNum NaN)) = Inl (InvalidHours (JNum NaN))
   \<and> validateHours T (Some (JNum PosInf)) = Inl (InvalidHours (JNum PosInf))
   \<and> validateHours T (Some (JNum NegInf)) = Inl (InvalidHours (JNum NegInf))
   \<and> (\<forall>s. validateHours T (Some (JStr s))
            = (case T (JStr s) of
                 Fin q \<Rightarrow> if 0 < q then Inr (Fin q) else Inl (InvalidHours (JStr s))
               | _ \<Rightarrow> Inl (InvalidHours (JStr s))))
   \<and> validateHours T (Some JNull) = Inl (InvalidHours JNull)
   \<and> validateHours T (Some (JBool False)) = Inl (InvalidHours (JBool False))
   \<and> validateHours T (Some (JBool True)) = Inr (Fin 1)
   \<and> (\<forall>kvs. map_of kvs ''toString'' = None
         \<longrightarrow> validateHours T (Some (JObj kvs)) = Inl (InvalidHours (JObj kvs)))
   \<and> (\<forall>kvs. map_of kvs ''toString'' \<noteq> None
         \<longrightarrow> Number_coerce T (Some (JObj kvs)) = Inl TypeError)
   \<and> ((\<exists>n. Number_coerce T (Some h) = Inr n) \<longleftrightarrow> \<not> ToPrimitive_throws h)
   \<and> (\<forall>e. validateHours T hours = Inl e \<longrightarrow>
         getFullUsage T api hours = ([], Inl e) \<and> getModelUsage T api hours = ([], Inl e)
         \<and> getToolUsage T api hours = ([], Inl e))
   \<and> (\<forall>n. validateHours T hours = Inr n \<longrightarrow>
         fst (getModelUsage T api hours) = [FetchModelUsage n]
         \<and> fst (getToolUsage T api hours) = [FetchToolUsage n]
         \<and> fst (getFullUsage T api hours) = [FetchQuota, FetchModelUsage n, FetchToolUsage n])
   \<and> (\<forall>n. Number_coerce T hours = Inr n \<longrightarrow>
         validateHours_single_file T hours =
           Inr (case validateHours T hours of Inr m \<Rightarrow> m | Inl e \<Rightarrow> Fin 24))"
proof (intro conjI allI impI iffI)
  show "validateHours T None = Inr (Fin 24)" by (rule validateHours_absent)
  show "validateHours T (Some h) = Inr (Fin q)"
    if "Number_coerce T (Some h) = Inr (Fin q) \<and> 0 < q" for q
    using that validateHours_accepts by blast
  show "validateHours T (Some h) = Inl (InvalidHours h)"
    if "Number_coerce T (Some h) = Inr n \<and> (\<forall>q. n = Fin q \<longrightarrow> q \<le> 0)" for n
    using that validateHours_rejects[of T h n] by blast
  show "validateHours T (Some (JNum (Fin q)))
            = (if 0 < q then Inr (Fin q) else Inl (InvalidHours (JNum (Fin q))))" for q
    by (simp add: validateHours_number)
  show "validateHours T (Some (JNum NaN)) = Inl (InvalidHours (JNum NaN))"
    by (simp add: validateHours_number)
  show "validateHours T (Some (JNum PosInf)) = Inl (InvalidHours (JNum PosInf))"
    by (simp add: validateHours_number)
  show "validateHours T (Some (JNum NegInf)) = Inl (InvalidHours (JNum NegInf))"
    by (simp add: validateHours_number)
  show "validateHours T (Some (JStr s))
            = (case T (JStr s) of
                 Fin q \<Rightarrow> if 0 < q then Inr (Fin q) else Inl (InvalidHours (JStr s))
               | _ \<Rightarrow> Inl (InvalidHours (JStr s)))" for s
    by (rule validateHours_string)
  show "validateHours T (Some JNull) = Inl (InvalidHours JNull)"
    by (rule validateHours_null_bool_object)
  show "validateHours T (Some (JBool False)) = Inl (InvalidHours (JBool False))"
    by (rule validateHours_null_bool_object)
  show "validateHours T (Some (JBool True)) = Inr (Fin 1)"
    by (rule validateHours_null_bool_object)
  show "validateHours T (Some (JObj kvs)) = Inl (InvalidHours (JObj kvs))"
    if "map_of kvs ''toString'' = None" for kvs
    using that by (rule validateHours_null_bool_object)
  show "Number_coerce T (Some (JObj kvs)) = Inl TypeError"
    if "map_of kvs ''toString'' \<noteq> None" for kvs
    using that by (simp add: Number_coerce_def)
  show "\<not> ToPrimitive_throws h" if "\<exists>n. Number_coerce T (Some h) = Inr n"
    using that by (cases h) (auto simp: Number_coerce_def split: if_splits)
  show "\<exists>n. Number_coerce T (Some h) = Inr n" if "\<not> ToPrimitive_throws h"
    using that by (rule hours_conversion_returns)
  show "getFullUsage T api hours = ([], Inl e)" "getModelUsage T api hours = ([], Inl e)"
    "getToolUsage T api hours = ([], Inl e)" if "validateHours T hours = Inl e" for e
    using handlers_rejected[OF that] by simp_all
  show "fst (getModelUsage T api hours) = [FetchModelUsage n]"
    "fst (getToolUsage T api hours) = [FetchToolUsage n]"
    "fst (getFullUsage T api hours) = [FetchQuota, FetchModelUsage n, FetchToolUsage n]"
    if "validateHours T hours = Inr n" for n
    using handlers_accepted[OF that] by simp_all
  show "validateHours_single_file T hours =
           Inr (case validateHours T hours of Inr m \<Rightarrow> m | Inl e \<Rightarrow> Fin 24)"
    if "Number_coerce T hours = Inr n" for n
    using that by (rule single_file_relation)
qed

text \<open>
  Claim C6 as stated lets zero and values that are not numbers fail in both servers.
  The single-file server's \<^verbatim>\<open>validateHours\<close> turns them into 24.
\<close>

theorem single_file_accepts_zero_hours:
  "validateHours_single_file (\<lambda>v. NaN) (Some (JNum (Fin 0))) = Inr (Fin 24)
   \<and> validateHours_single_file (\<lambda>v. NaN) (Some (JStr ''soon'')) = Inr (Fin 24)"
  by (simp add: validateHours_single_file_def Number_coerce_def)

text \<open>
  The theorem at 48, at -1, at a string that is no number, at an empty object and at
  an absent value, with a runtime that reads no number in the string.
\<close>

theorem hours_validation_witness:
  "validateHours (\<lambda>v. NaN) (Some (JNum (Fin 48))) = Inr (Fin 48)
   \<and> getModelUsage (\<lambda>v. NaN) example_api (Some (JNum (Fin (- 1))))
       = ([], Inl (InvalidHours (JNum (Fin (- 1)))))
   \<and> getFullUsage (\<lambda>v. NaN) example_api (Some (JStr ''soon''))
       = ([], Inl (InvalidHours (JStr ''soon'')))
   \<and> validateHours (\<lambda>v. NaN) (Some (JObj [])) = Inl (InvalidHours (JObj []))
   \<and> Number_coerce (\<lambda>v. NaN) (Some (JObj [(''toString'', JNum (Fin 1))])) = Inl TypeError
   \<and> fst (getFullUsage (\<lambda>v. NaN) example_api None)
       = [FetchQuota, FetchModelUsage (Fin 24), FetchToolUsage (Fin 24)]
   \<and> validateHours_single_file (\<lambda>v. NaN) (Some (JNum (Fin (- 1)))) = Inr (Fin 24)"
proof -
  have c48: "Number_coerce (\<lambda>v. NaN) (Some (JNum (Fin 48))) = Inr (Fin 48) \<and> (0::rat) < 48"
    by (simp add: Number_coerce_def)
  have neg: "Number_coerce (\<lambda>v. NaN) (Some (JNum (Fin (- 1)))) = Inr (Fin (- 1))
      \<and> (\<forall>q. Fin (- 1) = Fin q \<longrightarrow> q \<le> 0)"
    by (simp add: Number_coerce_def)
  have soon: "Number_coerce (\<lambda>v. NaN) (Some (JStr ''soon'')) = Inr NaN
      \<and> (\<forall>q. NaN = Fin q \<longrightarrow> q \<le> 0)"
    by (simp add: Number_coerce_def)
  have obj: "map_of ([] :: (string \<times> json) list) ''toString'' = None"
    by simp
  have own: "map_of [(''toString'', JNum (Fin 1))] ''toString'' \<noteq> None"
    by simp
  note a = hours_validation[of "\<lambda>v. NaN" "JNum (Fin 48)" None example_api]
  note b = hours_validation[of "\<lambda>v. NaN" "JNum (Fin (- 1))" "Some (JNum (Fin (- 1)))" example_api]
  note c = hours_validation[of "\<lambda>v. NaN" "JStr ''soon''" "Some (JStr ''soon'')" example_api]
  from a c48 have 1: "validateHours (\<lambda>v. NaN) (Some (JNum (Fin 48))) = Inr (Fin 48)" by blast
  from b neg have r: "validateHours (\<lambda>v. NaN) (Some (JNum (Fin (- 1)))) = Inl (InvalidHours (JNum (Fin (- 1))))"
    by blast
  with b have 2: "getModelUsage (\<lambda>v. NaN) example_api (Some (JNum (Fin (- 1))))
       = ([], Inl (InvalidHours (JNum (Fin (- 1)))))" by blast
  from c soon have "validateHours (\<lambda>v. NaN) (Some (JStr ''soon'')) = Inl (InvalidHours (JStr ''soon''))"
    by blast
  with c have 3: "getFullUsage (\<lambda>v. NaN) example_api (Some (JStr ''soon''))
       = ([], Inl (InvalidHours (JStr ''soon'')))" by blast
  from a have "validateHours (\<lambda>v. NaN) None = Inr (Fin 24)" by blast
  with a have 4: "fst (getFullUsage (\<lambda>v. NaN) example_api None)
       = [FetchQuota, FetchModelUsage (Fin 24), FetchToolUsage (Fin 24)]" by blast
  from a obj have 5: "validateHours (\<lambda>v. NaN) (Some (JObj [])) = Inl (InvalidHours (JObj []))"
    by blast
  from b neg have "validateHours_single_file (\<lambda>v. NaN) (Some (JNum (Fin (- 1)))) =
           Inr (case validateHours (\<lambda>v. NaN) (Some (JNum (Fin (- 1)))) of
                  Inr m \<Rightarrow> m | Inl e \<Rightarrow> Fin 24)"
    by blast
  with r have 6: "validateHours_single_file (\<lambda>v. NaN) (Some (JNum (Fin (- 1)))) = Inr (Fin 24)"
    by simp
  from a own have 7: "Number_coerce (\<lambda>v. NaN) (Some (JObj [(''toString'', JNum (Fin 1))]))
      = Inl TypeError"
    by blast
  from 1 2 3 4 5 6 7 show ?thesis by blast
qed

section \<open>Properties of the single-account lookup\<close>

lemma findIndex_None: "findIndex P xs = None \<longleftrightarrow> (\<forall>x\<in>set xs. \<not> P x)"
  by (induction xs) (auto split: option.splits)

lemma findIndex_Some:
  "findIndex P xs = Some i \<longleftrightarrow> i < length xs \<and> P (xs ! i) \<and> (\<forall>j<i. \<not> P (xs ! j))"
proof (induction xs arbitrary: i)
  case Nil
  then show ?case by simp
next
  case (Cons x xs)
  show ?case
  proof (cases "P x")
    case True
    then show ?thesis by (cases i) auto
  next
    case False
    show ?thesis
    proof (cases i)
      case 0
      with False show ?thesis by (auto split: option.splits)
    next
      case (Suc i')
      have "(\<forall>j<Suc i'. \<not> P ((x # xs) ! j)) \<longleftrightarrow> (\<forall>j<i'. \<not> P (xs ! j))"
        using False by (auto simp: nth_Cons split: nat.splits)
      with Cons.IH[of i'] False Suc show ?thesis
        by (auto split: option.splits)
    qed
  qed
qed

lemma email_predicate:
  "(case truthy (email a) of None \<Rightarrow> False | Some e \<Rightarrow> lc e = lc s) = email_matches lc s a"
  by (cases "email a") (auto simp: email_matches_def)

lemma resolve_number: "resolve_index dbl lc accs (IdNumber n) = Inr n"
  by (simp add: resolve_index_def)

lemma resolve_digits:
  "NUMERIC_STRING_REGEX_test s \<Longrightarrow>
     resolve_index dbl lc accs (IdString s) = Inr (dbl (of_nat (digits_value s)))"
  by (simp add: resolve_index_def Number_of_digits_def)

lemma resolve_not_found:
  "\<not> NUMERIC_STRING_REGEX_test s \<Longrightarrow> \<forall>a\<in>set accs. \<not> email_matches lc s a \<Longrightarrow>
     resolve_index dbl lc accs (IdString s) = Inl (AccountNotFound (JStr s))"
  using findIndex_None[of "email_matches lc s" accs]
  by (simp add: resolve_index_def email_predicate)

lemma resolve_email:
  "\<not> NUMERIC_STRING_REGEX_test s \<Longrightarrow> i < length accs \<Longrightarrow> email_matches lc s (accs ! i) \<Longrightarrow>
   \<forall>j<i. \<not> email_matches lc s (accs ! j) \<Longrightarrow>
     resolve_index dbl lc accs (IdString s) = Inr (Fin (of_nat i))"
  using findIndex_Some[of "email_matches lc s" accs i]
  by (simp add: resolve_index_def email_predicate)

lemma single_same_index:
  "resolve_index dbl lc accs ident = resolve_index dbl lc accs ident' \<Longrightarrow>
   loadAccounts file = Inr accs \<Longrightarrow>
     getAntigravityQuotaSingle dbl lc net file ident
       = getAntigravityQuotaSingle dbl lc net file ident'"
  by (simp add: getAntigravityQuotaSingle_def)

lemma single_load_failed:
  "loadAccounts file = Inl e \<Longrightarrow> getAntigravityQuotaSingle dbl lc net file ident = ([], Inl e)"
  by (simp add: getAntigravityQuotaSingle_def)

lemma single_digits:
  assumes "NUMERIC_STRING_REGEX_test s"
  shows "getAntigravityQuotaSingle dbl lc net file (IdString s)
       = getAntigravityQuotaSingle dbl lc net file (IdNumber (Number_of_digits dbl s))"
proof (cases "loadAccounts file")
  case (Inl e)
  then show ?thesis by (simp add: single_load_failed)
next
  case (Inr accs)
  show ?thesis
    by (rule single_same_index[OF _ Inr])
       (simp add: resolve_number resolve_digits[OF assms] Number_of_digits_def)
qed

lemma single_unresolved:
  "loadAccounts file = Inr accs \<Longrightarrow> resolve_index dbl lc accs ident = Inl e \<Longrightarrow>
     getAntigravityQuotaSingle dbl lc net file ident = ([], Inl e)"
  by (simp add: getAntigravityQuotaSingle_def)

lemma single_out_of_range:
  "loadAccounts file = Inr accs \<Longrightarrow> resolve_index dbl lc accs ident = Inr index \<Longrightarrow>
   js_lt index (Fin 0) \<or> js_ge index (Fin (of_nat (length accs))) \<Longrightarrow>
     getAntigravityQuotaSingle dbl lc net file ident
       = ([], Inl (IndexOutOfRange index (length accs)))"
  by (simp add: getAntigravityQuotaSingle_def)

lemma single_in_range:
  "loadAccounts file = Inr accs \<Longrightarrow> resolve_index dbl lc accs ident = Inr (Fin (of_nat i)) \<Longrightarrow>
   i < length accs \<Longrightarrow>
     getAntigravityQuotaSingle dbl lc net file ident
       = getAntigravityAccountQuota dbl net (accs ! i) i"
  by (simp add: getAntigravityQuotaSingle_def)


subsection \<open>Strings of digits\<close>

text \<open>
  A string the pattern accepts is the decimal notation of a natural number, written
  with or without leading zeros, and the value read from it is that number.
\<close>

lemma digit_char_value:
  "d < 10 \<Longrightarrow> is_digit (digit_char d) \<and> of_char (digit_char d) - 48 = d"
proof -
  have ten: "(10::nat) = Suc (Suc (Suc (Suc (Suc (Suc (Suc (Suc (Suc (Suc 0)))))))))"
    by simp
  have "\<forall>d<10. is_digit (digit_char d) \<and> of_char (digit_char d) - 48 = d"
    unfolding ten by (simp add: All_less_Suc digit_char_def is_digit_def)
  then show "d < 10 \<Longrightarrow> is_digit (digit_char d) \<and> of_char (digit_char d) - 48 = d"
    by blast
qed

lemma is_digit_digit_char: "is_digit c \<Longrightarrow> digit_char (of_char c - 48) = c"
proof -
  assume d: "is_digit c"
  then have "of_char c - (48::nat) < 10" by (auto simp: is_digit_def)
  from digit_char_value[OF this] d
  have "(of_char (digit_char (of_char c - 48)) :: nat) = of_char c"
    unfolding is_digit_def by linarith
  then show ?thesis by (simp only: of_char_eq_iff)
qed

lemma digits_value_snoc: "digits_value (s @ [c]) = 10 * digits_value s + (of_char c - 48)"
  by (simp add: digits_value_def)

lemma digits_value_zeros: "digits_value (replicate k CHR ''0'' @ s) = digits_value s"
proof -
  have "foldl (\<lambda>n c. 10 * n + (of_char c - 48)) (0::nat) (replicate k CHR ''0'') = 0"
    by (induction k) simp_all
  then show ?thesis by (simp add: digits_value_def)
qed

lemma digits_value_nat_to_string: "digits_value (nat_to_string n) = n"
proof (induction n rule: nat_to_string.induct)
  case (1 n)
  show ?case
  proof (cases "n < 10")
    case True
    then show ?thesis
      using digit_char_value[OF True]
      by (simp add: nat_to_string.simps[of n] digits_value_def)
  next
    case False
    have "n mod 10 < 10" by simp
    from digit_char_value[OF this] have "of_char (digit_char (n mod 10)) - 48 = n mod 10" by simp
    with False 1 show ?thesis
      by (simp add: nat_to_string.simps[of n] digits_value_snoc)
  qed
qed

lemma nat_to_string_digits: "nat_to_string n \<noteq> [] \<and> list_all is_digit (nat_to_string n)"
proof (induction n rule: nat_to_string.induct)
  case (1 n)
  show ?case
  proof (cases "n < 10")
    case True
    then show ?thesis
      using digit_char_value[OF True] by (simp add: nat_to_string.simps[of n])
  next
    case False
    have "n mod 10 < 10" by simp
    from digit_char_value[OF this] have "is_digit (digit_char (n mod 10))" by simp
    with False 1 show ?thesis
      by (simp add: nat_to_string.simps[of n])
  qed
qed

lemma is_digit_zero: "is_digit CHR ''0''"
  by (simp add: is_digit_def)

lemma regex_decimal: "NUMERIC_STRING_REGEX_test (replicate k CHR ''0'' @ nat_to_string n)"
  using nat_to_string_digits[of n] is_digit_zero
  by (auto simp: NUMERIC_STRING_REGEX_test_def list_all_iff)

lemma nat_to_string_digit: "d < 10 \<Longrightarrow> nat_to_string d = [digit_char d]"
  by (simp add: nat_to_string.simps[of d])

lemma nat_to_string_snoc:
  "0 < n \<Longrightarrow> d < 10 \<Longrightarrow> nat_to_string (10 * n + d) = nat_to_string n @ [digit_char d]"
  by (simp add: nat_to_string.simps[of "10 * n + d"])

lemma digit_string_decimal:
  "s \<noteq> [] \<Longrightarrow> list_all is_digit s \<Longrightarrow>
     \<exists>k. s = replicate k CHR ''0'' @ nat_to_string (digits_value s)"
proof (induction s rule: rev_induct)
  case Nil
  then show ?case by simp
next
  case (snoc c s)
  from snoc.prems have c: "is_digit c" and s: "list_all is_digit s" by simp_all
  let ?d = "of_char c - (48::nat)"
  from c have d: "?d < 10" by (auto simp: is_digit_def)
  have cd: "digit_char ?d = c" using is_digit_digit_char[OF c] .
  show ?case
  proof (cases "s = []")
    case True
    have "nat_to_string (digits_value [c]) = [c]"
      using nat_to_string_digit[OF d] cd by (simp add: digits_value_def)
    with True show ?thesis by (intro exI[of _ 0]) simp
  next
    case False
    from snoc.IH[OF False s] obtain k where
      k: "s = replicate k CHR ''0'' @ nat_to_string (digits_value s)" by blast
    show ?thesis
    proof (cases "digits_value s = 0")
      case True
      have z: "nat_to_string 0 = [CHR ''0'']"
        by (simp add: nat_to_string.simps[of 0] digit_char_def)
      from k True z have "s = replicate (Suc k) CHR ''0''"
        by (simp add: replicate_append_same)
      moreover have "nat_to_string (digits_value (s @ [c])) = [c]"
        using True nat_to_string_digit[OF d] cd by (simp add: digits_value_snoc)
      ultimately have "s @ [c] = replicate (Suc k) CHR ''0'' @ nat_to_string (digits_value (s @ [c]))"
        by simp
      then show ?thesis by blast
    next
      case nz: False
      then have "nat_to_string (digits_value (s @ [c])) = nat_to_string (digits_value s) @ [c]"
        using nat_to_string_snoc[of "digits_value s" ?d] d cd by (simp add: digits_value_snoc)
      with k have "s @ [c] = replicate k CHR ''0'' @ nat_to_string (digits_value (s @ [c]))"
        by simp
      then show ?thesis by blast
    qed
  qed
qed

lemma digit_string_is_decimal:
  assumes "NUMERIC_STRING_REGEX_test s"
  shows "\<exists>k m. s = replicate k CHR ''0'' @ nat_to_string m \<and> digits_value s = m"
  using digit_string_decimal[of s] assms
  by (auto simp: NUMERIC_STRING_REGEX_test_def)

lemma resolve_decimal:
  "resolve_index dbl lc accs (IdString (replicate k CHR ''0'' @ nat_to_string m))
     = Inr (dbl (of_nat m))"
  using resolve_digits[OF regex_decimal, of dbl lc accs k m]
  by (simp add: digits_value_zeros digits_value_nat_to_string)

text \<open>
  Claim C5. Over the loaded accounts, \<^verbatim>\<open>getOne\<close> resolves its identifier as follows. A
  number is the index itself. A string of digits is the decimal notation, with or
  without leading zeros, of a natural number, and resolves to the double of that
  number: the call gives what it gives for that number, and the decimal notation of a
  position of the list queries the account at that position (\<^verbatim>\<open>"0"\<close> and \<^verbatim>\<open>0\<close> in
  particular give the same). Any other string is compared, lower-cased, with the emails
  of the accounts: when none matches the call fails with the account-not-found error,
  otherwise the first account that matches is the one queried. An index below zero, or
  not below the number of accounts, fails with the index-out-of-range error, and an
  index that is a position of the list queries the account at that position. (The
  comparisons are the language's: neither holds of NaN, which no identifier received as
  JSON or read from digits resolves to. The positions of a list are doubles, which the
  theorem asks of \<open>dbl\<close> where it speaks of one.)
\<close>

theorem getOne_resolution:
  assumes "loadAccounts file = Inr accs"
  shows "resolve_index dbl lc accs (IdNumber n) = Inr n
   \<and> (NUMERIC_STRING_REGEX_test s \<longrightarrow>
        (\<exists>k m. s = replicate k CHR ''0'' @ nat_to_string m
           \<and> resolve_index dbl lc accs (IdString s) = Inr (dbl (of_nat m))
           \<and> getAntigravityQuotaSingle dbl lc net file (IdString s)
               = getAntigravityQuotaSingle dbl lc net file (IdNumber (dbl (of_nat m)))))
   \<and> (\<forall>k m. NUMERIC_STRING_REGEX_test (replicate k CHR ''0'' @ nat_to_string m)
          \<and> getAntigravityQuotaSingle dbl lc net file
               (IdString (replicate k CHR ''0'' @ nat_to_string m))
             = getAntigravityQuotaSingle dbl lc net file (IdNumber (dbl (of_nat m))))
   \<and> (\<forall>i<length accs. dbl (of_nat i) = Fin (of_nat i) \<longrightarrow>
          getAntigravityQuotaSingle dbl lc net file (IdString (nat_to_string i))
            = getAntigravityAccountQuota dbl net (accs ! i) i)
   \<and> (dbl 0 = Fin 0 \<longrightarrow>
        getAntigravityQuotaSingle dbl lc net file (IdString ''0'')
          = getAntigravityQuotaSingle dbl lc net file (IdNumber (Fin 0)))
   \<and> (\<not> NUMERIC_STRING_REGEX_test s \<and> (\<forall>a\<in>set accs. \<not> email_matches lc s a) \<longrightarrow>
        getAntigravityQuotaSingle dbl lc net file (IdString s)
          = ([], Inl (AccountNotFound (JStr s))))
   \<and> (\<forall>i. \<not> NUMERIC_STRING_REGEX_test s \<and> i < length accs \<and> email_matches lc s (accs ! i)
          \<and> (\<forall>j<i. \<not> email_matches lc s (accs ! j)) \<longrightarrow>
        getAntigravityQuotaSingle dbl lc net file (IdString s)
          = getAntigravityAccountQuota dbl net (accs ! i) i)
   \<and> (\<forall>index. resolve_index dbl lc accs ident = Inr index
          \<and> (js_lt index (Fin 0) \<or> js_ge index (Fin (of_nat (length accs)))) \<longrightarrow>
        getAntigravityQuotaSingle dbl lc net file ident
          = ([], Inl (IndexOutOfRange index (length accs))))
   \<and> (\<forall>i<length accs.
        getAntigravityQuotaSingle dbl lc net file (IdNumber (Fin (of_nat i)))
          = getAntigravityAccountQuota dbl net (accs ! i) i)"
proof (intro conjI impI allI)
  have decimal: "getAntigravityQuotaSingle dbl lc net file
               (IdString (replicate k CHR ''0'' @ nat_to_string m))
             = getAntigravityQuotaSingle dbl lc net file (IdNumber (dbl (of_nat m)))" for k m
    by (rule single_same_index[OF _ assms]) (simp add: resolve_number resolve_decimal)
  show "resolve_index dbl lc accs (IdNumber n) = Inr n"
    by (rule resolve_number)
  show "\<exists>k m. s = replicate k CHR ''0'' @ nat_to_string m
           \<and> resolve_index dbl lc accs (IdString s) = Inr (dbl (of_nat m))
           \<and> getAntigravityQuotaSingle dbl lc net file (IdString s)
               = getAntigravityQuotaSingle dbl lc net file (IdNumber (dbl (of_nat m)))"
    if "NUMERIC_STRING_REGEX_test s"
  proof -
    from digit_string_is_decimal[OF that] obtain k m where
      s: "s = replicate k CHR ''0'' @ nat_to_string m" by blast
    show ?thesis
      using decimal[of k m] resolve_decimal[of dbl lc accs k m] s by blast
  qed
  show "NUMERIC_STRING_REGEX_test (replicate k CHR ''0'' @ nat_to_string m)" for k m
    by (rule regex_decimal)
  show "getAntigravityQuotaSingle dbl lc net file
               (IdString (replicate k CHR ''0'' @ nat_to_string m))
             = getAntigravityQuotaSingle dbl lc net file (IdNumber (dbl (of_nat m)))" for k m
    by (rule decimal)
  show "getAntigravityQuotaSingle dbl lc net file (IdString (nat_to_string i))
            = getAntigravityAccountQuota dbl net (accs ! i) i"
    if "i < length accs" "dbl (of_nat i) = Fin (of_nat i)" for i
    using decimal[of 0 i] that by (simp add: single_in_range[OF assms] resolve_number)
  show "getAntigravityQuotaSingle dbl lc net file (IdString ''0'')
          = getAntigravityQuotaSingle dbl lc net file (IdNumber (Fin 0))"
    if "dbl 0 = Fin 0"
    using decimal[of 0 0] that by (simp add: nat_to_string.simps[of 0] digit_char_def)
  show "getAntigravityQuotaSingle dbl lc net file (IdString s)
          = ([], Inl (AccountNotFound (JStr s)))"
    if "\<not> NUMERIC_STRING_REGEX_test s \<and> (\<forall>a\<in>set accs. \<not> email_matches lc s a)"
    using that by (simp add: single_unresolved[OF assms] resolve_not_found)
  show "getAntigravityQuotaSingle dbl lc net file (IdString s)
          = getAntigravityAccountQuota dbl net (accs ! i) i"
    if "\<not> NUMERIC_STRING_REGEX_test s \<and> i < length accs \<and> email_matches lc s (accs ! i)
          \<and> (\<forall>j<i. \<not> email_matches lc s (accs ! j))" for i
    using that by (simp add: single_in_range[OF assms] resolve_email)
  show "getAntigravityQuotaSingle dbl lc net file ident
          = ([], Inl (IndexOutOfRange index (length accs)))"
    if "resolve_index dbl lc accs ident = Inr index
          \<and> (js_lt index (Fin 0) \<or> js_ge index (Fin (of_nat (length accs))))" for index
    using that single_out_of_range[OF assms, of dbl lc ident index net] by blast
  show "getAntigravityQuotaSingle dbl lc net file (IdNumber (Fin (of_nat i)))
          = getAntigravityAccountQuota dbl net (accs ! i) i"
    if "i < length accs" for i
    using that by (simp add: single_in_range[OF assms] resolve_number)
qed

lemma example_load:
  "loadAccounts example_file
     = Inr [example_account ''a@example.com'', disabled_account, example_account ''b@example.com'']"
  by (simp add: example_file_def loadAccounts_FileAccounts)

lemma example_lower: "ascii_lower ''B@Example.com'' = ''b@example.com''"
  by (simp add: ascii_lower_def)

lemma ascii_lower_lowercase:
  "ascii_lower ''a@example.com'' = ''a@example.com''"
  "ascii_lower ''b@example.com'' = ''b@example.com''"
  "ascii_lower ''nonexistent@example.com'' = ''nonexistent@example.com''"
  by (simp_all add: ascii_lower_def)

lemma decimal_two: "nat_to_string 2 = ''2''"
  by (simp add: nat_to_string.simps[of 2] digit_char_def)

text \<open>
  The theorem over the three example accounts: \<^verbatim>\<open>"0"\<close> against \<^verbatim>\<open>0\<close>, \<^verbatim>\<open>"2"\<close> and \<^verbatim>\<open>"002"\<close>,
  which reach the third account, an unknown email, the index 999, and an email written
  in another case.
\<close>

theorem getOne_resolution_witness:
  "getAntigravityQuotaSingle Fin ascii_lower (example_nets 0) example_file (IdString ''0'')
     = getAntigravityQuotaSingle Fin ascii_lower (example_nets 0) example_file (IdNumber (Fin 0))
   \<and> getAntigravityQuotaSingle Fin ascii_lower (example_nets 0) example_file (IdNumber (Fin 0))
     = getAntigravityAccountQuota Fin (example_nets 0) (example_account ''a@example.com'') 0
   \<and> getAntigravityQuotaSingle Fin ascii_lower (example_nets 0) example_file (IdString ''2'')
     = getAntigravityAccountQuota Fin (example_nets 0) (example_account ''b@example.com'') 2
   \<and> getAntigravityQuotaSingle Fin ascii_lower (example_nets 0) example_file (IdString ''002'')
     = getAntigravityQuotaSingle Fin ascii_lower (example_nets 0) example_file (IdNumber (Fin 2))
   \<and> getAntigravityQuotaSingle Fin ascii_lower (example_nets 0) example_file
       (IdString ''nonexistent@example.com'')
     = ([], Inl (AccountNotFound (JStr ''nonexistent@example.com'')))
   \<and> getAntigravityQuotaSingle Fin ascii_lower (example_nets 0) example_file (IdNumber (Fin 999))
     = ([], Inl (IndexOutOfRange (Fin 999) 3))
   \<and> getAntigravityQuotaSingle Fin ascii_lower (example_nets 0) example_file
       (IdString ''B@Example.com'')
     = getAntigravityAccountQuota Fin (example_nets 0) (example_account ''b@example.com'') 2"
proof -
  let ?accs = "[example_account ''a@example.com'', disabled_account,
                example_account ''b@example.com'']"
  let ?single = "getAntigravityQuotaSingle Fin ascii_lower (example_nets 0) example_file"
  note at_example = getOne_resolution[OF example_load, where dbl = Fin and lc = ascii_lower
        and net = "example_nets 0"]
  have none: "\<not> NUMERIC_STRING_REGEX_test ''nonexistent@example.com''
      \<and> (\<forall>a\<in>set ?accs. \<not> email_matches ascii_lower ''nonexistent@example.com'' a)"
    by (simp add: NUMERIC_STRING_REGEX_test_def is_digit_def email_matches_def
          example_account_def disabled_account_def ascii_lower_lowercase)
  have third: "\<not> NUMERIC_STRING_REGEX_test ''B@Example.com'' \<and> 2 < length ?accs
      \<and> email_matches ascii_lower ''B@Example.com'' (?accs ! 2)
      \<and> (\<forall>j<2. \<not> email_matches ascii_lower ''B@Example.com'' (?accs ! j))"
    by (simp add: NUMERIC_STRING_REGEX_test_def is_digit_def email_matches_def
          example_account_def disabled_account_def ascii_lower_lowercase example_lower
          less_Suc_eq numeral_2_eq_2)
  have far: "resolve_index Fin ascii_lower ?accs (IdNumber (Fin 999)) = Inr (Fin 999)
      \<and> (js_lt (Fin 999) (Fin 0) \<or> js_ge (Fin 999) (Fin (of_nat (length ?accs))))"
    by (simp add: resolve_index_def)
  have 1: "?single (IdString ''0'') = ?single (IdNumber (Fin 0))"
    using at_example by blast
  have 2: "?single (IdNumber (Fin 0))
      = getAntigravityAccountQuota Fin (example_nets 0) (example_account ''a@example.com'') 0"
  proof -
    from at_example
    have "\<forall>i<length ?accs. ?single (IdNumber (Fin (of_nat i)))
            = getAntigravityAccountQuota Fin (example_nets 0) (?accs ! i) i"
      by blast
    then have "?single (IdNumber (Fin (of_nat 0)))
            = getAntigravityAccountQuota Fin (example_nets 0) (?accs ! 0) 0"
      by (rule allE[of _ 0]) simp
    then show ?thesis by simp
  qed
  have 3: "?single (IdString ''nonexistent@example.com'')
      = ([], Inl (AccountNotFound (JStr ''nonexistent@example.com'')))"
    using at_example[where s = "''nonexistent@example.com''"] none
    by blast
  have 4: "?single (IdNumber (Fin 999)) = ([], Inl (IndexOutOfRange (Fin 999) 3))"
  proof -
    from at_example[where ident = "IdNumber (Fin 999)"] far
    have "?single (IdNumber (Fin 999)) = ([], Inl (IndexOutOfRange (Fin 999) (length ?accs)))"
      by blast
    then show ?thesis by simp
  qed
  have 5: "?single (IdString ''B@Example.com'')
      = getAntigravityAccountQuota Fin (example_nets 0) (example_account ''b@example.com'') 2"
  proof -
    from at_example[where s = "''B@Example.com''"] third
    have "?single (IdString ''B@Example.com'')
            = getAntigravityAccountQuota Fin (example_nets 0) (?accs ! 2) 2"
      by blast
    then show ?thesis by simp
  qed
  have 6: "?single (IdString ''2'')
      = getAntigravityAccountQuota Fin (example_nets 0) (example_account ''b@example.com'') 2"
  proof -
    from at_example
    have "\<forall>i<length ?accs. Fin (of_nat i) = Fin (of_nat i) \<longrightarrow>
            ?single (IdString (nat_to_string i))
              = getAntigravityAccountQuota Fin (example_nets 0) (?accs ! i) i"
      by blast
    then have "?single (IdString (nat_to_string 2))
              = getAntigravityAccountQuota Fin (example_nets 0) (?accs ! 2) 2"
      by (rule allE[of _ 2]) simp
    then show ?thesis by (simp add: decimal_two)
  qed
  have 7: "?single (IdString ''002'') = ?single (IdNumber (Fin 2))"
  proof -
    from at_example
    have "\<forall>k m. ?single (IdString (replicate k CHR ''0'' @ nat_to_string m))
                   = ?single (IdNumber (Fin (of_nat m)))"
      by blast
    then have "?single (IdString (replicate 2 CHR ''0'' @ nat_to_string 2))
                   = ?single (IdNumber (Fin (of_nat 2)))"
      by blast
    moreover have "replicate 2 CHR ''0'' = ''00''" by (simp add: numeral_2_eq_2)
    ultimately show ?thesis by (simp add: decimal_two)
  qed
  from 1 2 3 4 5 6 7 show ?thesis by blast
qed

end
